theory Spec2Isabelle
  imports Main
begin

section \<open>Go values\<close>

text \<open>
  A \<^verbatim>\<open>json.RawMessage\<close> is a byte string. A Go call either returns or panics; the only
  panics the modelled code can raise itself are a method call through a nil interface
  value, a read through a nil pointer and a store into a nil map.
\<close>

type_synonym RawMessage = string

datatype 'r outcome = Returns 'r | Panics

text \<open>
  An \<^verbatim>\<open>error\<close> is an interface value: it has a dynamic type and the text that its
  \<^verbatim>\<open>Error()\<close> method yields. \<^verbatim>\<open>errors.New\<close> and \<^verbatim>\<open>fmt.Errorf\<close> build values of
  the library's own string error type.
\<close>

datatype error = error_value (dynamic_type: string) (Error: string)

definition errors_New :: "string \<Rightarrow> error" where
  "errors_New msg = error_value ''*errors.errorString'' msg"

text \<open>\<^verbatim>\<open>fmt.Errorf("no-plugin:%s", t)\<close>\<close>

definition no_plugin :: "string \<Rightarrow> error" where
  "no_plugin t = errors_New (''no-plugin:'' @ t)"

text \<open>\<^verbatim>\<open>strings.Join(elems, sep)\<close>\<close>

fun strings_Join :: "string list \<Rightarrow> string \<Rightarrow> string" where
  "strings_Join [] sep = []"
| "strings_Join [x] sep = x"
| "strings_Join (x # y # ys) sep = x @ sep @ strings_Join (y # ys) sep"

definition newline :: string where
  "newline = [CHR 0x0A]"

text \<open>
  Modelled from the spec: the declaration of \<^verbatim>\<open>flavor.Health\<close> is not among the sources.
  It is an enumeration of \<open>Healthy\<close>, \<open>Unhealthy\<close> and \<open>Unknown\<close>; the code names
  \<^verbatim>\<open>flavor.Unknown\<close> and \<^verbatim>\<open>flavor.Healthy\<close>.
\<close>

datatype Health = Unknown | Healthy | Unhealthy

section \<open>The heap\<close>

text \<open>
  \<^verbatim>\<open>instance.Spec\<close> holds a map, a pointer and a slice, so copies of the struct share
  the objects behind them. The heap keeps the contents of every \<^verbatim>\<open>map[string]string\<close>,
  of every \<^verbatim>\<open>LogicalID\<close> cell and of every backing array of attachments, each under
  its address; \<open>next_addr\<close> is the first address not yet handed out. A slice is
  represented by the address of its backing array and holds all of the array's
  elements. \<open>plugin_state\<close> is whatever else the plugins keep between calls.
\<close>

type_synonym addr = nat

record ('a, 'w) heap =
  tag_cells :: "addr \<Rightarrow> (string \<rightharpoonup> string)"
  id_cells :: "addr \<Rightarrow> string"
  att_cells :: "addr \<Rightarrow> 'a list"
  next_addr :: addr
  plugin_state :: 'w

text \<open>
  Modelled from the spec: the declaration of \<^verbatim>\<open>instance.Spec\<close> is not among the
  sources. Its fields are those of the specification's \<^verbatim>\<open>InstanceSpec\<close>, with the kinds
  that \<^verbatim>\<open>cloneSpec\<close> shows: \<open>Tags\<close> is a map, \<open>LogicalID\<close> a pointer,
  \<open>Attachments\<close> a slice, \<open>Init\<close> a string, and \<open>Properties\<close> a pointer that the code
  below copies and never reads through. \<open>None\<close> is the nil map, the nil pointer and the
  nil slice.
\<close>

record instance_Spec =
  Properties :: "addr option"
  Tags :: "addr option"
  Init :: string
  LogicalID :: "addr option"
  Attachments :: "addr option"

text \<open>What \<^verbatim>\<open>range\<close> visits: a nil map and a nil slice have no elements.\<close>

definition range_Tags :: "('a, 'w) heap \<Rightarrow> addr option \<Rightarrow> (string \<rightharpoonup> string)" where
  "range_Tags h m = (case m of None \<Rightarrow> Map.empty | Some t \<Rightarrow> tag_cells h t)"

definition range_Attachments :: "('a, 'w) heap \<Rightarrow> addr option \<Rightarrow> 'a list" where
  "range_Attachments h s = (case s of None \<Rightarrow> [] | Some a \<Rightarrow> att_cells h a)"

text \<open>
  The contents of an instance spec in a heap, in the fields of the specification's
  \<^verbatim>\<open>InstanceSpec\<close>: what a reader of the struct sees.
\<close>

record 'a InstanceSpec =
  properties :: "addr option"
  tags :: "string \<rightharpoonup> string"
  init :: string
  logicalID :: "string option"
  attachments :: "'a list"

definition contents :: "('a, 'w) heap \<Rightarrow> instance_Spec \<Rightarrow> 'a InstanceSpec" where
  "contents h spec =
     \<lparr>properties = Properties spec,
      tags = range_Tags h (Tags spec),
      init = Init spec,
      logicalID = map_option (id_cells h) (LogicalID spec),
      attachments = range_Attachments h (Attachments spec)\<rparr>"

section \<open>The flavor plugin interface\<close>

text \<open>
  Modelled from the spec: the declaration of the interface \<^verbatim>\<open>flavor.Plugin\<close> is not among
  the sources. It has the four methods that the code calls, with the arguments and
  results of those calls; each may read and change the heap. The allocation method
  \<open>'al\<close> and the instance description \<open>'d\<close> are passed through unread. A nil
  interface value is \<open>None\<close>.
\<close>

record ('a, 'w, 'al, 'd) flavor_Plugin =
  Plugin_Validate :: "RawMessage \<Rightarrow> 'al \<Rightarrow> ('a, 'w) heap \<Rightarrow> error option \<times> ('a, 'w) heap"
  Plugin_Prepare :: "RawMessage \<Rightarrow> instance_Spec \<Rightarrow> 'al \<Rightarrow> ('a, 'w) heap
                       \<Rightarrow> (instance_Spec \<times> error option) \<times> ('a, 'w) heap"
  Plugin_Healthy :: "RawMessage \<Rightarrow> 'd \<Rightarrow> ('a, 'w) heap
                       \<Rightarrow> (Health \<times> error option) \<times> ('a, 'w) heap"
  Plugin_Drain :: "RawMessage \<Rightarrow> 'd \<Rightarrow> ('a, 'w) heap \<Rightarrow> error option \<times> ('a, 'w) heap"

section \<open>The RPC server: routing by type\<close>

text \<open>
  \<^verbatim>\<open>Flavor\<close> has a default plugin and a map of typed plugins; a nil map reads as the
  empty map, and a map may hold a nil interface value.
\<close>

record 'p Flavor =
  plugin :: "'p option"
  typedPlugins :: "string \<rightharpoonup> 'p option"

definition PluginServer :: "'p option \<Rightarrow> 'p Flavor" where
  "PluginServer p = \<lparr>plugin = p, typedPlugins = Map.empty\<rparr>"

definition PluginServerWithTypes :: "(string \<rightharpoonup> 'p option) \<Rightarrow> 'p Flavor" where
  "PluginServerWithTypes typed = \<lparr>plugin = None, typedPlugins = typed\<rparr>"

definition getPlugin :: "'p Flavor \<Rightarrow> string \<Rightarrow> 'p option" where
  "getPlugin p flavorType =
     (if flavorType = [] then plugin p
      else (case typedPlugins p flavorType of
              Some q \<Rightarrow> q
            | None \<Rightarrow> None))"

text \<open>
  Modelled from the spec: the declarations of the requests and responses are not among
  the sources. They have the fields that the handlers use; \<open>Properties\<close> is a pointer,
  which the handlers compare with nil and read through.
\<close>

record 'al ValidateRequest =
  ValidateRequest_Type :: string
  ValidateRequest_Properties :: "RawMessage option"
  ValidateRequest_Allocation :: 'al

record ValidateResponse =
  ValidateResponse_Type :: string
  ValidateResponse_OK :: bool

record 'al PrepareRequest =
  PrepareRequest_Type :: string
  PrepareRequest_Properties :: "RawMessage option"
  PrepareRequest_Spec :: instance_Spec
  PrepareRequest_Allocation :: 'al

record PrepareResponse =
  PrepareResponse_Type :: string
  PrepareResponse_Spec :: instance_Spec

record 'd HealthyRequest =
  HealthyRequest_Type :: string
  HealthyRequest_Properties :: "RawMessage option"
  HealthyRequest_Instance :: 'd

record HealthyResponse =
  HealthyResponse_Type :: string
  HealthyResponse_Health :: Health

record 'd DrainRequest =
  DrainRequest_Type :: string
  DrainRequest_Properties :: "RawMessage option"
  DrainRequest_Instance :: 'd

record DrainResponse =
  DrainResponse_Type :: string
  DrainResponse_OK :: bool

text \<open>
  Each handler returns its error, the response it has written and the heap. The
  \<^verbatim>\<open>*http.Request\<close> argument is ignored by the code and left out.
\<close>

definition Flavor_Validate ::
  "('a, 'w, 'al, 'd) flavor_Plugin Flavor \<Rightarrow> 'al ValidateRequest \<Rightarrow> ValidateResponse
     \<Rightarrow> ('a, 'w) heap \<Rightarrow> error option outcome \<times> ValidateResponse \<times> ('a, 'w) heap" where
  "Flavor_Validate p req resp h =
     (let raw = (case ValidateRequest_Properties req of None \<Rightarrow> [] | Some r \<Rightarrow> r);
          resp1 = resp\<lparr>ValidateResponse_Type := ValidateRequest_Type req\<rparr>
      in case getPlugin p (ValidateRequest_Type req) of
           None \<Rightarrow> (Returns (Some (no_plugin (ValidateRequest_Type req))), resp1, h)
         | Some c \<Rightarrow>
             (case Plugin_Validate c raw (ValidateRequest_Allocation req) h of
                (Some err, h') \<Rightarrow> (Returns (Some err), resp1, h')
              | (None, h') \<Rightarrow> (Returns None, resp1\<lparr>ValidateResponse_OK := True\<rparr>, h')))"

definition Flavor_Prepare ::
  "('a, 'w, 'al, 'd) flavor_Plugin Flavor \<Rightarrow> 'al PrepareRequest \<Rightarrow> PrepareResponse
     \<Rightarrow> ('a, 'w) heap \<Rightarrow> error option outcome \<times> PrepareResponse \<times> ('a, 'w) heap" where
  "Flavor_Prepare p req resp h =
     (let raw = (case PrepareRequest_Properties req of None \<Rightarrow> [] | Some r \<Rightarrow> r);
          resp1 = resp\<lparr>PrepareResponse_Type := PrepareRequest_Type req\<rparr>
      in case getPlugin p (PrepareRequest_Type req) of
           None \<Rightarrow> (Returns (Some (no_plugin (PrepareRequest_Type req))), resp1, h)
         | Some c \<Rightarrow>
             (case Plugin_Prepare c raw (PrepareRequest_Spec req)
                     (PrepareRequest_Allocation req) h of
                ((spec, Some err), h') \<Rightarrow> (Returns (Some err), resp1, h')
              | ((spec, None), h') \<Rightarrow>
                  (Returns None, resp1\<lparr>PrepareResponse_Spec := spec\<rparr>, h')))"

definition Flavor_Healthy ::
  "('a, 'w, 'al, 'd) flavor_Plugin Flavor \<Rightarrow> 'd HealthyRequest \<Rightarrow> HealthyResponse
     \<Rightarrow> ('a, 'w) heap \<Rightarrow> error option outcome \<times> HealthyResponse \<times> ('a, 'w) heap" where
  "Flavor_Healthy p req resp h =
     (let resp1 = resp\<lparr>HealthyResponse_Type := HealthyRequest_Type req\<rparr>
      in case getPlugin p (HealthyRequest_Type req) of
           None \<Rightarrow> (Returns (Some (no_plugin (HealthyRequest_Type req))), resp1, h)
         | Some c \<Rightarrow>
             (case HealthyRequest_Properties req of
                None \<Rightarrow> (Panics, resp1, h)
              | Some raw \<Rightarrow>
                  (case Plugin_Healthy c raw (HealthyRequest_Instance req) h of
                     ((health, Some err), h') \<Rightarrow> (Returns (Some err), resp1, h')
                   | ((health, None), h') \<Rightarrow>
                       (Returns None, resp1\<lparr>HealthyResponse_Health := health\<rparr>, h'))))"

definition Flavor_Drain ::
  "('a, 'w, 'al, 'd) flavor_Plugin Flavor \<Rightarrow> 'd DrainRequest \<Rightarrow> DrainResponse
     \<Rightarrow> ('a, 'w) heap \<Rightarrow> error option outcome \<times> DrainResponse \<times> ('a, 'w) heap" where
  "Flavor_Drain p req resp h =
     (let resp1 = resp\<lparr>DrainResponse_Type := DrainRequest_Type req\<rparr>
      in case getPlugin p (DrainRequest_Type req) of
           None \<Rightarrow> (Returns (Some (no_plugin (DrainRequest_Type req))), resp1, h)
         | Some c \<Rightarrow>
             (case DrainRequest_Properties req of
                None \<Rightarrow> (Panics, resp1, h)
              | Some raw \<Rightarrow>
                  (case Plugin_Drain c raw (DrainRequest_Instance req) h of
                     (Some err, h') \<Rightarrow> (Returns (Some err), resp1, h')
                   | (None, h') \<Rightarrow> (Returns None, resp1\<lparr>DrainResponse_OK := True\<rparr>, h'))))"

section \<open>The combo flavor\<close>

text \<open>
  Modelled from the spec: the declaration of \<^verbatim>\<open>types.FlavorPlugin\<close> is not among the
  sources. It is one member of a composition, the specification's \<^verbatim>\<open>FlavorReference\<close>:
  the name of a plugin and the payload that \<^verbatim>\<open>types.RawMessage\<close> hands to it.
  \<^verbatim>\<open>Spec\<close> is the list of members that the properties of the combo flavor decode to.
\<close>

record FlavorPlugin =
  Plugin :: string
  Plugin_Properties :: RawMessage

record Spec =
  Flavors :: "FlavorPlugin list"

text \<open>
  The two collaborators of \<^verbatim>\<open>flavorCombo\<close> are parameters of every operation:
  \<^verbatim>\<open>json.Unmarshal\<close> into a \<^verbatim>\<open>Spec\<close>, which yields the members or an error, and
  the lookup \<^verbatim>\<open>flavorPlugins\<close>, which yields a plugin and an error as Go returns them,
  side by side.
\<close>

type_synonym Unmarshal = "RawMessage \<Rightarrow> error + Spec"

type_synonym ('a, 'w, 'al, 'd) FlavorPluginLookup =
  "string \<Rightarrow> ('a, 'w, 'al, 'd) flavor_Plugin option \<times> error option"

text \<open>\<^verbatim>\<open>flavorCombo.Validate\<close>\<close>

definition flavorCombo_Validate :: "Unmarshal \<Rightarrow> RawMessage \<Rightarrow> 'al \<Rightarrow> error option" where
  "flavorCombo_Validate unmarshal flavorProperties allocation =
     (case unmarshal flavorProperties of Inl err \<Rightarrow> Some err | Inr s \<Rightarrow> None)"

subsection \<open>Healthy\<close>

text \<open>
  Beside its result and the heap, each operation yields the list of the calls it made
  on member plugins, in the order it made them, each with what the member returned.
\<close>

type_synonym Healthy_call = "FlavorPlugin \<times> Health \<times> error option"

fun Healthy_loop ::
  "('a, 'w, 'al, 'd) FlavorPluginLookup \<Rightarrow> FlavorPlugin list \<Rightarrow> 'd \<Rightarrow> ('a, 'w) heap
     \<Rightarrow> (Health \<times> error option) outcome \<times> ('a, 'w) heap \<times> Healthy_call list" where
  "Healthy_loop f [] inst h = (Returns (Healthy, None), h, [])"
| "Healthy_loop f (pluginSpec # rest) inst h =
     (case f (Plugin pluginSpec) of
        (_, Some err) \<Rightarrow> (Returns (Unknown, Some err), h, [])
      | (None, None) \<Rightarrow> (Panics, h, [])
      | (Some p, None) \<Rightarrow>
          (case Plugin_Healthy p (Plugin_Properties pluginSpec) inst h of
             ((health, err), h') \<Rightarrow>
               if err \<noteq> None \<or> health \<noteq> Healthy
               then (Returns (health, err), h', [(pluginSpec, health, err)])
               else (case Healthy_loop f rest inst h' of
                       (r, h'', calls) \<Rightarrow> (r, h'', (pluginSpec, health, err) # calls))))"

definition flavorCombo_Healthy ::
  "Unmarshal \<Rightarrow> ('a, 'w, 'al, 'd) FlavorPluginLookup \<Rightarrow> RawMessage \<Rightarrow> 'd \<Rightarrow> ('a, 'w) heap
     \<Rightarrow> (Health \<times> error option) outcome \<times> ('a, 'w) heap \<times> Healthy_call list" where
  "flavorCombo_Healthy unmarshal f flavorProperties inst h =
     (case unmarshal flavorProperties of
        Inl err \<Rightarrow> (Returns (Unknown, Some err), h, [])
      | Inr s \<Rightarrow> Healthy_loop f (Flavors s) inst h)"

subsection \<open>Drain\<close>

type_synonym Drain_call = "FlavorPlugin \<times> error option"

fun Drain_loop ::
  "('a, 'w, 'al, 'd) FlavorPluginLookup \<Rightarrow> FlavorPlugin list \<Rightarrow> 'd \<Rightarrow> string list
     \<Rightarrow> ('a, 'w) heap \<Rightarrow> string list outcome \<times> ('a, 'w) heap \<times> Drain_call list" where
  "Drain_loop f [] inst errs h = (Returns errs, h, [])"
| "Drain_loop f (pluginSpec # rest) inst errs h =
     (case f (Plugin pluginSpec) of
        (p, err) \<Rightarrow>
          let errs1 = (case err of Some e \<Rightarrow> errs @ [Error e] | None \<Rightarrow> errs)
          in (case p of
                None \<Rightarrow> (Panics, h, [])
              | Some q \<Rightarrow>
                  (case Plugin_Drain q (Plugin_Properties pluginSpec) inst h of
                     (err2, h') \<Rightarrow>
                       let errs2 = (case err2 of Some e \<Rightarrow> errs1 @ [Error e] | None \<Rightarrow> errs1)
                       in (case Drain_loop f rest inst errs2 h' of
                             (r, h'', calls) \<Rightarrow> (r, h'', (pluginSpec, err2) # calls)))))"

definition flavorCombo_Drain ::
  "Unmarshal \<Rightarrow> ('a, 'w, 'al, 'd) FlavorPluginLookup \<Rightarrow> RawMessage \<Rightarrow> 'd \<Rightarrow> ('a, 'w) heap
     \<Rightarrow> error option outcome \<times> ('a, 'w) heap \<times> Drain_call list" where
  "flavorCombo_Drain unmarshal f flavorProperties inst h =
     (case unmarshal flavorProperties of
        Inl err \<Rightarrow> (Returns (Some err), h, [])
      | Inr s \<Rightarrow>
          (case Drain_loop f (Flavors s) inst [] h of
             (Panics, h', calls) \<Rightarrow> (Panics, h', calls)
           | (Returns errs, h', calls) \<Rightarrow>
               (if length errs = 0 then (Returns None, h', calls)
                else (Returns (Some (errors_New (strings_Join errs '', ''))), h', calls))))"

subsection \<open>Cloning and merging instance specs\<close>

text \<open>\<^verbatim>\<open>map[string]string{}\<close>, \<^verbatim>\<open>idCopy := *p\<close> and \<^verbatim>\<open>[]instance.Attachment{}\<close>: a new object.\<close>

definition new_map :: "('a, 'w) heap \<Rightarrow> addr \<times> ('a, 'w) heap" where
  "new_map h =
     (next_addr h,
      h\<lparr>tag_cells := (tag_cells h)(next_addr h := Map.empty), next_addr := Suc (next_addr h)\<rparr>)"

definition new_id :: "string \<Rightarrow> ('a, 'w) heap \<Rightarrow> addr \<times> ('a, 'w) heap" where
  "new_id v h =
     (next_addr h,
      h\<lparr>id_cells := (id_cells h)(next_addr h := v), next_addr := Suc (next_addr h)\<rparr>)"

definition new_array :: "'a list \<Rightarrow> ('a, 'w) heap \<Rightarrow> addr \<times> ('a, 'w) heap" where
  "new_array vs h =
     (next_addr h,
      h\<lparr>att_cells := (att_cells h)(next_addr h := vs), next_addr := Suc (next_addr h)\<rparr>)"

text \<open>
  \<^verbatim>\<open>for k, v := range src { dst[k] = v }\<close> with the entries of \<open>src\<close> already read.
  A map has each key once, so whatever order \<^verbatim>\<open>range\<close> takes, the map at \<open>dst\<close> ends
  as its old contents overlaid with \<open>src\<close>. \<open>store_entries\<close> is the loop for a map
  that is known to exist; \<open>assign_entries\<close> is the loop for a map held in a struct
  field, where a store into a nil map panics and, with no entry to store, the loop
  body never runs.
\<close>

definition store_entries :: "addr \<Rightarrow> (string \<rightharpoonup> string) \<Rightarrow> ('a, 'w) heap \<Rightarrow> ('a, 'w) heap" where
  "store_entries t src h = h\<lparr>tag_cells := (tag_cells h)(t := tag_cells h t ++ src)\<rparr>"

definition assign_entries ::
  "addr option \<Rightarrow> (string \<rightharpoonup> string) \<Rightarrow> ('a, 'w) heap \<Rightarrow> ('a, 'w) heap outcome" where
  "assign_entries dst src h =
     (case dst of
        None \<Rightarrow> if src = Map.empty then Returns h else Panics
      | Some t \<Rightarrow> Returns (store_entries t src h))"

text \<open>
  \<^verbatim>\<open>s = append(s, v)\<close>. Appending to a nil slice makes a new array. Otherwise the
  element is written behind the last one, in the array of \<open>s\<close>; whether the runtime
  moves the array makes no difference to a slice that nothing else refers to, and
  every slice appended to below was made by \<open>cloneSpec\<close> a moment before.
\<close>

definition go_append :: "addr option \<Rightarrow> 'a \<Rightarrow> ('a, 'w) heap \<Rightarrow> addr option \<times> ('a, 'w) heap" where
  "go_append s v h =
     (case s of
        None \<Rightarrow> (case new_array [v] h of (a, h') \<Rightarrow> (Some a, h'))
      | Some a \<Rightarrow> (Some a, h\<lparr>att_cells := (att_cells h)(a := att_cells h a @ [v])\<rparr>))"

text \<open>\<^verbatim>\<open>for _, v := range vs { s = append(s, v) }\<close> with the elements already read.\<close>

fun append_each :: "addr option \<Rightarrow> 'a list \<Rightarrow> ('a, 'w) heap \<Rightarrow> addr option \<times> ('a, 'w) heap" where
  "append_each s [] h = (s, h)"
| "append_each s (v # vs) h = (case go_append s v h of (s', h') \<Rightarrow> append_each s' vs h')"

definition cloneSpec :: "instance_Spec \<Rightarrow> ('a, 'w) heap \<Rightarrow> instance_Spec \<times> ('a, 'w) heap" where
  "cloneSpec spec h =
     (case new_map h of
        (t, h1) \<Rightarrow>
          let h2 = store_entries t (range_Tags h1 (Tags spec)) h1
          in (case (case LogicalID spec of
                      None \<Rightarrow> (None, h2)
                    | Some p \<Rightarrow> (case new_id (id_cells h2 p) h2 of (q, h') \<Rightarrow> (Some q, h'))) of
                (logicalID', h3) \<Rightarrow>
                  (case new_array [] h3 of
                     (a, h4) \<Rightarrow>
                       (case append_each (Some a) (range_Attachments h4 (Attachments spec)) h4 of
                          (attachments', h5) \<Rightarrow>
                            (\<lparr>Properties = Properties spec,
                              Tags = Some t,
                              Init = Init spec,
                              LogicalID = logicalID',
                              Attachments = attachments'\<rparr>, h5)))))"

text \<open>
  The loop of \<^verbatim>\<open>mergeSpecs\<close>: tags are stored into the map of \<open>result\<close>, a member's
  init is appended when it is not empty, after a newline when \<open>result\<close> already has
  one, and attachments are appended one by one.
\<close>

fun merge_loop ::
  "instance_Spec \<Rightarrow> instance_Spec list \<Rightarrow> ('a, 'w) heap
     \<Rightarrow> instance_Spec outcome \<times> ('a, 'w) heap" where
  "merge_loop result [] h = (Returns result, h)"
| "merge_loop result (spec # specs) h =
     (case assign_entries (Tags result) (range_Tags h (Tags spec)) h of
        Panics \<Rightarrow> (Panics, h)
      | Returns h1 \<Rightarrow>
          let result1 =
                (if Init spec \<noteq> []
                 then result\<lparr>Init :=
                        (if Init result \<noteq> [] then Init result @ newline else Init result)
                        @ Init spec\<rparr>
                 else result)
          in (case append_each (Attachments result1)
                     (range_Attachments h1 (Attachments spec)) h1 of
                (s, h2) \<Rightarrow> merge_loop (result1\<lparr>Attachments := s\<rparr>) specs h2))"

definition mergeSpecs ::
  "instance_Spec \<Rightarrow> instance_Spec list \<Rightarrow> ('a, 'w) heap
     \<Rightarrow> (instance_Spec \<times> error option) outcome \<times> ('a, 'w) heap" where
  "mergeSpecs initial specs h =
     (case cloneSpec initial h of
        (result, h0) \<Rightarrow>
          (case merge_loop result specs h0 of
             (Panics, h') \<Rightarrow> (Panics, h')
           | (Returns r, h') \<Rightarrow> (Returns (r, None), h')))"

subsection \<open>Prepare\<close>

text \<open>
  A call of a member's Prepare is recorded with the member, the clone handed to it,
  the contents of that clone at the moment of the call, and the error it returned.
\<close>

record 'a Prepare_call =
  member :: FlavorPlugin
  clone :: instance_Spec
  handed :: "'a InstanceSpec"
  returned :: "error option"

fun Prepare_loop ::
  "('a, 'w, 'al, 'd) FlavorPluginLookup \<Rightarrow> instance_Spec \<Rightarrow> 'al \<Rightarrow> FlavorPlugin list
     \<Rightarrow> instance_Spec list \<Rightarrow> ('a, 'w) heap
     \<Rightarrow> (error + instance_Spec list) outcome \<times> ('a, 'w) heap \<times> 'a Prepare_call list" where
  "Prepare_loop f inst allocation [] specs h = (Returns (Inr specs), h, [])"
| "Prepare_loop f inst allocation (pluginSpec # rest) specs h =
     (case cloneSpec inst h of
        (c, h1) \<Rightarrow>
          (case f (Plugin pluginSpec) of
             (_, Some err) \<Rightarrow> (Returns (Inl err), h1, [])
           | (None, None) \<Rightarrow> (Panics, h1, [])
           | (Some p, None) \<Rightarrow>
               (case Plugin_Prepare p (Plugin_Properties pluginSpec) c allocation h1 of
                  ((flavorOutput, err), h2) \<Rightarrow>
                    let call = \<lparr>member = pluginSpec, clone = c, handed = contents h1 c,
                                returned = err\<rparr>
                    in (case err of
                          Some e \<Rightarrow> (Returns (Inl e), h2, [call])
                        | None \<Rightarrow>
                            (case Prepare_loop f inst allocation rest (specs @ [flavorOutput]) h2 of
                               (r, h3, calls) \<Rightarrow> (r, h3, call # calls))))))"

definition flavorCombo_Prepare ::
  "Unmarshal \<Rightarrow> ('a, 'w, 'al, 'd) FlavorPluginLookup \<Rightarrow> RawMessage \<Rightarrow> instance_Spec \<Rightarrow> 'al
     \<Rightarrow> ('a, 'w) heap
     \<Rightarrow> (instance_Spec \<times> error option) outcome \<times> ('a, 'w) heap \<times> 'a Prepare_call list" where
  "flavorCombo_Prepare unmarshal f flavor inst allocation h =
     (case unmarshal flavor of
        Inl err \<Rightarrow> (Returns (inst, Some err), h, [])
      | Inr combo \<Rightarrow>
          (case Prepare_loop f inst allocation (Flavors combo) [] h of
             (Panics, h', calls) \<Rightarrow> (Panics, h', calls)
           | (Returns (Inl err), h', calls) \<Rightarrow> (Returns (inst, Some err), h', calls)
           | (Returns (Inr specs), h', calls) \<Rightarrow>
               (case mergeSpecs inst specs h' of (r, h'') \<Rightarrow> (r, h'', calls))))"

text \<open>
  The objects a struct refers to, and what it means for a struct to refer to objects
  that exist in a heap.
\<close>

definition owned :: "instance_Spec \<Rightarrow> addr set" where
  "owned spec = set_option (Tags spec) \<union> set_option (LogicalID spec) \<union> set_option (Attachments spec)"

definition allocated :: "('a, 'w) heap \<Rightarrow> instance_Spec \<Rightarrow> bool" where
  "allocated h spec \<longleftrightarrow> (\<forall>a \<in> owned spec. a < next_addr h)"

text \<open>
  A Prepare call that changes objects only through the struct it was given: of the
  objects that exist when it is called, those the struct does not refer to are the same
  afterwards. It may change the tags, the logical ID and the attachments of its
  argument at will, make new objects, and change \<open>plugin_state\<close>.
\<close>

definition confined :: "instance_Spec \<Rightarrow> ('a, 'w) heap \<Rightarrow> ('a, 'w) heap \<Rightarrow> bool" where
  "confined c h h' \<longleftrightarrow>
     next_addr h \<le> next_addr h' \<and>
     (\<forall>a. a < next_addr h \<and> a \<notin> owned c \<longrightarrow>
        tag_cells h' a = tag_cells h a \<and> id_cells h' a = id_cells h a \<and>
        att_cells h' a = att_cells h a)"

definition confined_plugins :: "('a, 'w, 'al, 'd) FlavorPluginLookup \<Rightarrow> bool" where
  "confined_plugins f \<longleftrightarrow>
     (\<forall>name p properties c allocation h.
        fst (f name) = Some p \<longrightarrow>
        confined c h (snd (Plugin_Prepare p properties c allocation h)))"

section \<open>Descriptions used in the statements\<close>

text \<open>The messages of the errors that the recorded Drain calls returned, in call order.\<close>

fun failure_messages :: "Drain_call list \<Rightarrow> string list" where
  "failure_messages [] = []"
| "failure_messages ((m, None) # calls) = failure_messages calls"
| "failure_messages ((m, Some e) # calls) = Error e # failure_messages calls"

text \<open>
  The merge rule for init, member by member: an empty init changes nothing; any other
  is appended to the accumulated init, after a newline if that is not empty.
\<close>

fun join_init :: "string \<Rightarrow> string list \<Rightarrow> string" where
  "join_init acc [] = acc"
| "join_init acc (x # xs) =
     join_init (if x \<noteq> [] then (if acc \<noteq> [] then acc @ newline else acc) @ x else acc) xs"

text \<open>Every object with an address below \<open>b\<close> is the same in both heaps.\<close>

definition unchanged_below :: "addr \<Rightarrow> ('a, 'w) heap \<Rightarrow> ('a, 'w) heap \<Rightarrow> bool" where
  "unchanged_below b h h' \<longleftrightarrow>
     (\<forall>a. a < b \<longrightarrow>
        tag_cells h' a = tag_cells h a \<and> id_cells h' a = id_cells h a \<and>
        att_cells h' a = att_cells h a)"

section \<open>Sample collaborators\<close>

text \<open>
  Concrete collaborators on which the theorems below are exercised. The sample decoder
  stands in for \<^verbatim>\<open>json.Unmarshal\<close>: it rejects one payload and reads every other
  payload as a list of members, one per character, each named by that character.
\<close>

definition sample_unmarshal :: Unmarshal where
  "sample_unmarshal raw =
     (if raw = ''{'' then Inl (errors_New ''unexpected end of JSON input'')
      else Inr \<lparr>Flavors = map (\<lambda>c. \<lparr>Plugin = [c], Plugin_Properties = []\<rparr>) raw\<rparr>)"

text \<open>
  A sample plugin reports a fixed health, returns a fixed error from Validate, Drain
  and Prepare, and in Prepare writes one tag into the map of the struct it is given,
  appends a line to its init and returns that struct.
\<close>

definition sample_plugin ::
  "Health \<Rightarrow> error option \<Rightarrow> string \<Rightarrow> string \<Rightarrow> (nat, unit, unit, unit) flavor_Plugin" where
  "sample_plugin health err k v =
     \<lparr>Plugin_Validate = (\<lambda>raw allocation h. (err, h)),
      Plugin_Prepare = (\<lambda>raw spec allocation h.
         ((spec\<lparr>Init := ''echo '' @ v\<rparr>, err),
          (case Tags spec of
             None \<Rightarrow> h
           | Some t \<Rightarrow> h\<lparr>tag_cells := (tag_cells h)(t := (tag_cells h t)(k \<mapsto> v))\<rparr>))),
      Plugin_Healthy = (\<lambda>raw inst h. ((health, None), h)),
      Plugin_Drain = (\<lambda>raw inst h. (err, h))\<rparr>"

definition sample_lookup :: "(nat, unit, unit, unit) FlavorPluginLookup" where
  "sample_lookup name =
     (if name = ''a'' then (Some (sample_plugin Healthy None ''k'' ''1''), None)
      else if name = ''b'' then (Some (sample_plugin Unhealthy (Some (errors_New ''x'')) ''k'' ''2''), None)
      else if name = ''c'' then (Some (sample_plugin Healthy (Some (errors_New ''y'')) ''j'' ''3''), None)
      else (None, Some (errors_New ''plugin not found'')))"

text \<open>
  A heap with an instance spec in it (tags \<open>k = 0\<close> at address 0, the logical ID
  \<open>10.0.0.1\<close> at address 1, the attachments \<open>[7]\<close> at address 2) and with the objects
  of three specs as members might return them.
\<close>

definition sample_heap :: "(nat, unit) heap" where
  "sample_heap =
     \<lparr>tag_cells = (\<lambda>a. if a = 0 then [''k'' \<mapsto> ''0'']
                      else if a = 3 then [''k'' \<mapsto> ''1'']
                      else if a = 5 then [''k'' \<mapsto> ''2'', ''j'' \<mapsto> ''3'']
                      else Map.empty),
      id_cells = (\<lambda>a. if a = 1 then ''10.0.0.1'' else []),
      att_cells = (\<lambda>a. if a = 2 then [7] else if a = 4 then [8] else if a = 6 then [9, 10] else []),
      next_addr = 7,
      plugin_state = ()\<rparr>"

definition sample_output_A :: instance_Spec where
  "sample_output_A =
     \<lparr>Properties = None, Tags = Some 3, Init = ''echo a'', LogicalID = None, Attachments = Some 4\<rparr>"

definition sample_output_B :: instance_Spec where
  "sample_output_B =
     \<lparr>Properties = None, Tags = Some 5, Init = [], LogicalID = None, Attachments = Some 6\<rparr>"

definition sample_output_C :: instance_Spec where
  "sample_output_C =
     \<lparr>Properties = None, Tags = None, Init = ''echo c'', LogicalID = None, Attachments = None\<rparr>"

definition sample_spec :: instance_Spec where
  "sample_spec =
     \<lparr>Properties = None, Tags = Some 0, Init = ''boot'', LogicalID = Some 1, Attachments = Some 2\<rparr>"

definition sample_server :: "(nat, unit, unit, unit) flavor_Plugin Flavor" where
  "sample_server = PluginServer (Some (sample_plugin Healthy None ''k'' ''1''))"

definition sample_typed_server :: "(nat, unit, unit, unit) flavor_Plugin Flavor" where
  "sample_typed_server =
     PluginServerWithTypes [''combo'' \<mapsto> Some (sample_plugin Healthy None ''k'' ''1'')]"

text \<open>Prepare of the combo flavor on the sample spec in the sample heap.\<close>

definition sample_Prepare ::
  "RawMessage \<Rightarrow> (instance_Spec \<times> error option) outcome \<times> (nat, unit) heap \<times> nat Prepare_call list" where
  "sample_Prepare flavor =
     flavorCombo_Prepare sample_unmarshal sample_lookup flavor sample_spec () sample_heap"

section \<open>The router\<close>

text \<open>
  C4, as the code has it. A server made by \<open>PluginServer\<close> resolves the empty type to
  its default plugin and no other type: a type that is not empty is looked up in the
  registry, which such a server does not have, and there is no fall-back to the
  default. A server made by \<open>PluginServerWithTypes\<close> does not resolve the empty type,
  nor a type that its registry lacks. Whenever resolution yields nothing, each of the
  four handlers returns the error \<^verbatim>\<open>no-plugin:\<close> followed by the type.
\<close>

theorem getPlugin_routing:
  "getPlugin (PluginServer p) t = (if t = [] then p else None) \<and>
   getPlugin (PluginServerWithTypes typed) [] = None \<and>
   (typed t = None \<longrightarrow> getPlugin (PluginServerWithTypes typed) t = None) \<and>
   (getPlugin srv t = None \<longrightarrow>
      fst (Flavor_Validate srv (vreq\<lparr>ValidateRequest_Type := t\<rparr>) vresp h)
        = Returns (Some (no_plugin t)) \<and>
      fst (Flavor_Prepare srv (preq\<lparr>PrepareRequest_Type := t\<rparr>) presp h)
        = Returns (Some (no_plugin t)) \<and>
      fst (Flavor_Healthy srv (hreq\<lparr>HealthyRequest_Type := t\<rparr>) hresp h)
        = Returns (Some (no_plugin t)) \<and>
      fst (Flavor_Drain srv (dreq\<lparr>DrainRequest_Type := t\<rparr>) dresp h)
        = Returns (Some (no_plugin t)))"
  by (simp add: getPlugin_def PluginServer_def PluginServerWithTypes_def
      Flavor_Validate_def Flavor_Prepare_def Flavor_Healthy_def Flavor_Drain_def)

theorem getPlugin_routing_witness:
  "getPlugin sample_server ''vanilla'' = None \<and>
   getPlugin sample_typed_server [] = None \<and>
   getPlugin sample_typed_server ''vanilla'' = None \<and>
   fst (Flavor_Validate sample_typed_server
      \<lparr>ValidateRequest_Type = ''vanilla'', ValidateRequest_Properties = None,
       ValidateRequest_Allocation = ()\<rparr>
      \<lparr>ValidateResponse_Type = [], ValidateResponse_OK = False\<rparr> sample_heap)
     = Returns (Some (no_plugin ''vanilla''))"
  using getPlugin_routing [where p = "Some (sample_plugin Healthy None ''k'' ''1'')"
      and t = "''vanilla''"
      and typed = "[''combo'' \<mapsto> Some (sample_plugin Healthy None ''k'' ''1'')]"
      and srv = sample_typed_server
      and vreq = "\<lparr>ValidateRequest_Type = ''vanilla'', ValidateRequest_Properties = None,
       ValidateRequest_Allocation = ()\<rparr>"
      and vresp = "\<lparr>ValidateResponse_Type = [], ValidateResponse_OK = False\<rparr>"
      and h = sample_heap
      and preq = "\<lparr>PrepareRequest_Type = [], PrepareRequest_Properties = None,
       PrepareRequest_Spec = sample_spec, PrepareRequest_Allocation = ()\<rparr>"
      and presp = "\<lparr>PrepareResponse_Type = [], PrepareResponse_Spec = sample_spec\<rparr>"
      and hreq = "\<lparr>HealthyRequest_Type = [], HealthyRequest_Properties = None,
       HealthyRequest_Instance = ()\<rparr>"
      and hresp = "\<lparr>HealthyResponse_Type = [], HealthyResponse_Health = Unknown\<rparr>"
      and dreq = "\<lparr>DrainRequest_Type = [], DrainRequest_Properties = None,
       DrainRequest_Instance = ()\<rparr>"
      and dresp = "\<lparr>DrainResponse_Type = [], DrainResponse_OK = False\<rparr>"]
  by (simp add: sample_server_def sample_typed_server_def)

text \<open>
  C4 as stated fails: the sample server has a default plugin and no registry, and the
  type \<open>vanilla\<close> does not resolve on it.
\<close>

theorem no_default_fallback:
  "getPlugin sample_server ''vanilla'' = None"
  by (simp add: sample_server_def PluginServer_def getPlugin_def)

text \<open>
  C10, as the code has it. The Healthy and Drain handlers resolve the plugin first and
  read through the request's \<open>Properties\<close> pointer afterwards. For a request without
  properties they return the \<^verbatim>\<open>no-plugin\<close> error when the type does not resolve; when
  it resolves, the read faults, after the response's type has been written and before
  the plugin is called. The Validate and Prepare handlers treat a request without
  properties as one with the empty payload.
\<close>

theorem nil_Properties:
  "(HealthyRequest_Properties hreq = None \<longrightarrow>
      Flavor_Healthy srv hreq hresp h =
        (case getPlugin srv (HealthyRequest_Type hreq) of
           None \<Rightarrow> (Returns (Some (no_plugin (HealthyRequest_Type hreq))),
                    hresp\<lparr>HealthyResponse_Type := HealthyRequest_Type hreq\<rparr>, h)
         | Some c \<Rightarrow> (Panics, hresp\<lparr>HealthyResponse_Type := HealthyRequest_Type hreq\<rparr>, h))) \<and>
   (DrainRequest_Properties dreq = None \<longrightarrow>
      Flavor_Drain srv dreq dresp h =
        (case getPlugin srv (DrainRequest_Type dreq) of
           None \<Rightarrow> (Returns (Some (no_plugin (DrainRequest_Type dreq))),
                    dresp\<lparr>DrainResponse_Type := DrainRequest_Type dreq\<rparr>, h)
         | Some c \<Rightarrow> (Panics, dresp\<lparr>DrainResponse_Type := DrainRequest_Type dreq\<rparr>, h))) \<and>
   Flavor_Validate srv (vreq\<lparr>ValidateRequest_Properties := None\<rparr>) vresp h =
     Flavor_Validate srv (vreq\<lparr>ValidateRequest_Properties := Some []\<rparr>) vresp h \<and>
   Flavor_Prepare srv (preq\<lparr>PrepareRequest_Properties := None\<rparr>) presp h =
     Flavor_Prepare srv (preq\<lparr>PrepareRequest_Properties := Some []\<rparr>) presp h"
  by (simp add: Let_def Flavor_Validate_def Flavor_Prepare_def Flavor_Healthy_def Flavor_Drain_def
      cong: option.case_cong)

theorem nil_Properties_witness:
  "Flavor_Healthy sample_server
      \<lparr>HealthyRequest_Type = [], HealthyRequest_Properties = None, HealthyRequest_Instance = ()\<rparr>
      \<lparr>HealthyResponse_Type = [], HealthyResponse_Health = Unknown\<rparr> sample_heap
     = (Panics, \<lparr>HealthyResponse_Type = [], HealthyResponse_Health = Unknown\<rparr>, sample_heap) \<and>
   Flavor_Drain sample_server
      \<lparr>DrainRequest_Type = ''vanilla'', DrainRequest_Properties = None, DrainRequest_Instance = ()\<rparr>
      \<lparr>DrainResponse_Type = [], DrainResponse_OK = False\<rparr> sample_heap
     = (Returns (Some (no_plugin ''vanilla'')),
        \<lparr>DrainResponse_Type = ''vanilla'', DrainResponse_OK = False\<rparr>, sample_heap)"
  using nil_Properties [of
      "\<lparr>HealthyRequest_Type = [], HealthyRequest_Properties = None, HealthyRequest_Instance = ()\<rparr>"
      sample_server "\<lparr>HealthyResponse_Type = [], HealthyResponse_Health = Unknown\<rparr>" sample_heap
      "\<lparr>DrainRequest_Type = ''vanilla'', DrainRequest_Properties = None, DrainRequest_Instance = ()\<rparr>"
      "\<lparr>DrainResponse_Type = [], DrainResponse_OK = False\<rparr>"]
  by (simp add: sample_server_def PluginServer_def getPlugin_def)

text \<open>
  C10 as stated fails: a Healthy request without properties whose type does not
  resolve is answered with an error value.
\<close>

theorem Healthy_nil_Properties_returns_error:
  "fst (Flavor_Healthy sample_server
      \<lparr>HealthyRequest_Type = ''vanilla'', HealthyRequest_Properties = None,
       HealthyRequest_Instance = ()\<rparr>
      \<lparr>HealthyResponse_Type = [], HealthyResponse_Health = Unknown\<rparr> sample_heap)
     = Returns (Some (no_plugin ''vanilla''))"
  by (simp add: Flavor_Healthy_def sample_server_def PluginServer_def getPlugin_def)

section \<open>Healthy\<close>

lemma Healthy_loop_calls:
  assumes "\<forall>m \<in> set ms. \<exists>p. f (Plugin m) = (Some p, None)"
      and "Healthy_loop f ms inst h = (r, h', calls)"
  shows "map fst calls = take (length calls) ms \<and>
         (\<forall>c \<in> set (butlast calls). snd c = (Healthy, None)) \<and>
         (if \<forall>c \<in> set calls. snd c = (Healthy, None)
          then map fst calls = ms \<and> r = Returns (Healthy, None)
          else r = Returns (snd (last calls)))"
  using assms
proof (induction ms arbitrary: h r h' calls)
  case Nil
  then show ?case by simp
next
  case (Cons m ms)
  from Cons.prems(1) obtain p where p: "f (Plugin m) = (Some p, None)"
    by auto
  obtain health err h1 where call: "Plugin_Healthy p (Plugin_Properties m) inst h = ((health, err), h1)"
    by (metis prod.exhaust)
  show ?case
  proof (cases "err \<noteq> None \<or> health \<noteq> Healthy")
    case True
    with Cons.prems(2) p call have "calls = [(m, health, err)]" "r = Returns (health, err)"
      by auto
    with True show ?thesis by auto
  next
    case False
    obtain r2 h2 calls2 where rest: "Healthy_loop f ms inst h1 = (r2, h2, calls2)"
      by (metis prod.exhaust)
    with Cons.prems(2) p call False
    have eq: "calls = (m, Healthy, None) # calls2" "r = r2"
      by auto
    from Cons.prems(1) have "\<forall>m \<in> set ms. \<exists>p. f (Plugin m) = (Some p, None)"
      by simp
    from Cons.IH [OF this rest] eq show ?thesis
      by (cases calls2) (auto split: if_splits)
  qed
qed

text \<open>
  C2. When the properties decode and every member resolves, Healthy calls the members
  in listed order, starting with the first and leaving none out (the calls are a
  prefix of the members); every call but the last returned \<open>Healthy\<close> without an
  error; if every call did, all members were called and the result is \<open>Healthy\<close>
  without an error; otherwise the result is what the last call returned, and no
  member after it was called. So the composition reports \<open>Healthy\<close> without an error
  exactly when every member was called and reported \<open>Healthy\<close> without an error.
\<close>

theorem Healthy_first_failure_decides:
  assumes "unmarshal flavorProperties = Inr s"
      and "\<forall>m \<in> set (Flavors s). \<exists>p. f (Plugin m) = (Some p, None)"
      and "flavorCombo_Healthy unmarshal f flavorProperties inst h = (r, h', calls)"
  shows "map fst calls = take (length calls) (Flavors s) \<and>
         (\<forall>c \<in> set (butlast calls). snd c = (Healthy, None)) \<and>
         (if \<forall>c \<in> set calls. snd c = (Healthy, None)
          then map fst calls = Flavors s \<and> r = Returns (Healthy, None)
          else r = Returns (snd (last calls))) \<and>
         (r = Returns (Healthy, None) \<longleftrightarrow>
            map fst calls = Flavors s \<and> (\<forall>c \<in> set calls. snd c = (Healthy, None)))"
proof -
  from assms(1,3) have loop: "Healthy_loop f (Flavors s) inst h = (r, h', calls)"
    by (simp add: flavorCombo_Healthy_def)
  note main = Healthy_loop_calls [OF assms(2) loop]
  from main have decided:
    "if \<forall>c \<in> set calls. snd c = (Healthy, None)
     then map fst calls = Flavors s \<and> r = Returns (Healthy, None)
     else r = Returns (snd (last calls))"
    by blast
  have "r = Returns (Healthy, None) \<longleftrightarrow>
          map fst calls = Flavors s \<and> (\<forall>c \<in> set calls. snd c = (Healthy, None))"
  proof (cases "\<forall>c \<in> set calls. snd c = (Healthy, None)")
    case True
    with decided have "map fst calls = Flavors s" "r = Returns (Healthy, None)"
      by simp_all
    with True show ?thesis by blast
  next
    case False
    then have ne: "calls \<noteq> []" by auto
    from False decided have r: "r = Returns (snd (last calls))" by simp
    from main have "\<forall>c \<in> set (butlast calls). snd c = (Healthy, None)" by blast
    with False ne have "snd (last calls) \<noteq> (Healthy, None)"
      by (metis Un_iff append_butlast_last_id empty_iff insert_iff list.set(1) list.simps(15) set_append)
    with r False show ?thesis by simp
  qed
  with main show ?thesis by blast
qed

theorem Healthy_first_failure_decides_witness:
  "flavorCombo_Healthy sample_unmarshal sample_lookup ''aba'' () sample_heap
     = (Returns (Unhealthy, None), sample_heap,
        [(\<lparr>Plugin = ''a'', Plugin_Properties = []\<rparr>, Healthy, None),
         (\<lparr>Plugin = ''b'', Plugin_Properties = []\<rparr>, Unhealthy, None)]) \<and>
   map fst [(\<lparr>Plugin = ''a'', Plugin_Properties = []\<rparr>, Healthy, None),
         (\<lparr>Plugin = ''b'', Plugin_Properties = []\<rparr>, Unhealthy, None)]
     = take 2 (Flavors \<lparr>Flavors = [\<lparr>Plugin = ''a'', Plugin_Properties = []\<rparr>,
          \<lparr>Plugin = ''b'', Plugin_Properties = []\<rparr>, \<lparr>Plugin = ''a'', Plugin_Properties = []\<rparr>]\<rparr>)"
proof -
  have run: "flavorCombo_Healthy sample_unmarshal sample_lookup ''aba'' () sample_heap
     = (Returns (Unhealthy, None), sample_heap,
        [(\<lparr>Plugin = ''a'', Plugin_Properties = []\<rparr>, Healthy, None),
         (\<lparr>Plugin = ''b'', Plugin_Properties = []\<rparr>, Unhealthy, None)])"
    by (simp add: flavorCombo_Healthy_def sample_unmarshal_def sample_lookup_def sample_plugin_def)
  have dec: "sample_unmarshal ''aba'' = Inr \<lparr>Flavors = [\<lparr>Plugin = ''a'', Plugin_Properties = []\<rparr>,
          \<lparr>Plugin = ''b'', Plugin_Properties = []\<rparr>, \<lparr>Plugin = ''a'', Plugin_Properties = []\<rparr>]\<rparr>"
    by (simp add: sample_unmarshal_def)
  have res: "\<forall>m \<in> set (Flavors \<lparr>Flavors = [\<lparr>Plugin = ''a'', Plugin_Properties = []\<rparr>,
          \<lparr>Plugin = ''b'', Plugin_Properties = []\<rparr>, \<lparr>Plugin = ''a'', Plugin_Properties = []\<rparr>]\<rparr>).
        \<exists>p. sample_lookup (Plugin m) = (Some p, None)"
    by (simp add: sample_lookup_def)
  from Healthy_first_failure_decides [OF dec res run] run show ?thesis
    by simp
qed

section \<open>Drain\<close>

text \<open>
  C1. The lookup of the sample knows no plugin \<open>z\<close>: it returns a nil plugin and an
  error. Drain on the one member \<open>z\<close> records the error and then calls Drain through
  the nil plugin, which panics: the member is not skipped, and the recorded error is
  never returned.
\<close>

theorem Drain_unresolved_member_panics:
  "flavorCombo_Drain sample_unmarshal sample_lookup ''z'' () sample_heap
     = (Panics, sample_heap, [])"
  by (simp add: flavorCombo_Drain_def sample_unmarshal_def sample_lookup_def)

lemma failure_messages_empty:
  "failure_messages calls = [] \<longleftrightarrow> (\<forall>c \<in> set calls. snd c = None)"
  by (induction calls rule: failure_messages.induct) auto

lemma Drain_loop_calls:
  assumes "\<forall>m \<in> set ms. \<exists>p. f (Plugin m) = (Some p, None)"
      and "Drain_loop f ms inst errs h = (r, h', calls)"
  shows "map fst calls = ms \<and> r = Returns (errs @ failure_messages calls)"
  using assms
proof (induction ms arbitrary: errs h r h' calls)
  case Nil
  then show ?case by simp
next
  case (Cons m ms)
  from Cons.prems(1) obtain p where p: "f (Plugin m) = (Some p, None)"
    by auto
  obtain err2 h1 where call: "Plugin_Drain p (Plugin_Properties m) inst h = (err2, h1)"
    by (metis prod.exhaust)
  define errs2 where "errs2 = (case err2 of Some e \<Rightarrow> errs @ [Error e] | None \<Rightarrow> errs)"
  obtain r2 h2 calls2 where rest: "Drain_loop f ms inst errs2 h1 = (r2, h2, calls2)"
    by (metis prod.exhaust)
  from Cons.prems(2) p call rest have eq: "calls = (m, err2) # calls2" "r = r2"
    by (simp_all add: errs2_def)
  from Cons.prems(1) have "\<forall>m \<in> set ms. \<exists>p. f (Plugin m) = (Some p, None)"
    by simp
  from Cons.IH [OF this rest] eq show ?case
    by (cases err2) (simp_all add: errs2_def)
qed

text \<open>
  C5. When the properties decode and every member resolves, Drain is called on every
  member, in listed order, whatever the earlier calls returned; the result is no error
  exactly when no call returned one, and otherwise the one error made by
  \<^verbatim>\<open>errors.New\<close> from the messages of the errors returned, in call order, joined
  by a comma and a space.
\<close>

theorem Drain_runs_all_and_joins:
  assumes "unmarshal flavorProperties = Inr s"
      and "\<forall>m \<in> set (Flavors s). \<exists>p. f (Plugin m) = (Some p, None)"
      and "flavorCombo_Drain unmarshal f flavorProperties inst h = (r, h', calls)"
  shows "map fst calls = Flavors s \<and>
         r = Returns (if \<forall>c \<in> set calls. snd c = None then None
                      else Some (errors_New (strings_Join (failure_messages calls) '', '')))"
proof -
  obtain r0 h0 calls0 where loop: "Drain_loop f (Flavors s) inst [] h = (r0, h0, calls0)"
    by (metis prod.exhaust)
  from Drain_loop_calls [OF assms(2) loop]
  have calls0: "map fst calls0 = Flavors s" and r0: "r0 = Returns (failure_messages calls0)"
    by simp_all
  from assms(1,3) loop r0 have "calls = calls0"
    by (simp add: flavorCombo_Drain_def split: if_splits)
  with assms(1,3) loop r0 calls0 failure_messages_empty [of calls] show ?thesis
    by (auto simp: flavorCombo_Drain_def split: if_splits)
qed

theorem Drain_runs_all_and_joins_witness:
  "flavorCombo_Drain sample_unmarshal sample_lookup ''abc'' () sample_heap
     = (Returns (Some (errors_New ''x, y'')), sample_heap,
        [(\<lparr>Plugin = ''a'', Plugin_Properties = []\<rparr>, None),
         (\<lparr>Plugin = ''b'', Plugin_Properties = []\<rparr>, Some (errors_New ''x'')),
         (\<lparr>Plugin = ''c'', Plugin_Properties = []\<rparr>, Some (errors_New ''y''))]) \<and>
   strings_Join (failure_messages
        [(\<lparr>Plugin = ''a'', Plugin_Properties = []\<rparr>, None),
         (\<lparr>Plugin = ''b'', Plugin_Properties = []\<rparr>, Some (errors_New ''x'')),
         (\<lparr>Plugin = ''c'', Plugin_Properties = []\<rparr>, Some (errors_New ''y''))]) '', '' = ''x, y''"
proof -
  have run: "flavorCombo_Drain sample_unmarshal sample_lookup ''abc'' () sample_heap
     = (Returns (Some (errors_New ''x, y'')), sample_heap,
        [(\<lparr>Plugin = ''a'', Plugin_Properties = []\<rparr>, None),
         (\<lparr>Plugin = ''b'', Plugin_Properties = []\<rparr>, Some (errors_New ''x'')),
         (\<lparr>Plugin = ''c'', Plugin_Properties = []\<rparr>, Some (errors_New ''y''))])"
    by (simp add: flavorCombo_Drain_def sample_unmarshal_def sample_lookup_def sample_plugin_def
        errors_New_def)
  have dec: "sample_unmarshal ''abc'' = Inr \<lparr>Flavors = [\<lparr>Plugin = ''a'', Plugin_Properties = []\<rparr>,
          \<lparr>Plugin = ''b'', Plugin_Properties = []\<rparr>, \<lparr>Plugin = ''c'', Plugin_Properties = []\<rparr>]\<rparr>"
    by (simp add: sample_unmarshal_def)
  have res: "\<forall>m \<in> set (Flavors \<lparr>Flavors = [\<lparr>Plugin = ''a'', Plugin_Properties = []\<rparr>,
          \<lparr>Plugin = ''b'', Plugin_Properties = []\<rparr>, \<lparr>Plugin = ''c'', Plugin_Properties = []\<rparr>]\<rparr>).
        \<exists>p. sample_lookup (Plugin m) = (Some p, None)"
    by (simp add: sample_lookup_def)
  from Drain_runs_all_and_joins [OF dec res run] run show ?thesis
    by (simp add: errors_New_def)
qed

section \<open>Cloning and merging\<close>

lemma append_each_Some:
  "append_each (Some a) vs h = (Some a, h\<lparr>att_cells := (att_cells h)(a := att_cells h a @ vs)\<rparr>)"
  by (induction vs arbitrary: h) (simp_all add: go_append_def)

lemma cloneSpec_None:
  "LogicalID spec = None \<Longrightarrow>
   cloneSpec spec h =
     (\<lparr>Properties = Properties spec, Tags = Some (next_addr h), Init = Init spec,
       LogicalID = None, Attachments = Some (Suc (next_addr h))\<rparr>,
      h\<lparr>tag_cells := (tag_cells h)(next_addr h := range_Tags (h\<lparr>tag_cells := (tag_cells h)(next_addr h := Map.empty)\<rparr>) (Tags spec)),
        att_cells := (att_cells h)(Suc (next_addr h) := range_Attachments (h\<lparr>att_cells := (att_cells h)(Suc (next_addr h) := [])\<rparr>) (Attachments spec)),
        next_addr := Suc (Suc (next_addr h))\<rparr>)"
  by (simp add: cloneSpec_def new_map_def new_array_def store_entries_def append_each_Some
      range_Tags_def range_Attachments_def split: option.splits)

lemma cloneSpec_Some:
  "LogicalID spec = Some p \<Longrightarrow>
   cloneSpec spec h =
     (\<lparr>Properties = Properties spec, Tags = Some (next_addr h), Init = Init spec,
       LogicalID = Some (Suc (next_addr h)), Attachments = Some (Suc (Suc (next_addr h)))\<rparr>,
      h\<lparr>tag_cells := (tag_cells h)(next_addr h := range_Tags (h\<lparr>tag_cells := (tag_cells h)(next_addr h := Map.empty)\<rparr>) (Tags spec)),
        id_cells := (id_cells h)(Suc (next_addr h) := id_cells h p),
        att_cells := (att_cells h)(Suc (Suc (next_addr h)) := range_Attachments (h\<lparr>att_cells := (att_cells h)(Suc (Suc (next_addr h)) := [])\<rparr>) (Attachments spec)),
        next_addr := Suc (Suc (Suc (next_addr h)))\<rparr>)"
  by (simp add: cloneSpec_def new_map_def new_id_def new_array_def store_entries_def append_each_Some
      range_Tags_def range_Attachments_def split: option.splits)

lemma cloneSpec_frame:
  assumes "cloneSpec spec h = (c, h')"
  shows "next_addr h < next_addr h' \<and> plugin_state h' = plugin_state h \<and>
         (\<forall>a. a < next_addr h \<longrightarrow>
            tag_cells h' a = tag_cells h a \<and> id_cells h' a = id_cells h a \<and>
            att_cells h' a = att_cells h a)"
proof (cases "LogicalID spec")
  case None
  from assms show ?thesis unfolding cloneSpec_None [OF None] by auto
next
  case (Some p)
  from assms show ?thesis unfolding cloneSpec_Some [OF Some] by auto
qed

lemma cloneSpec_fresh:
  assumes "cloneSpec spec h = (c, h')"
  shows "owned c \<subseteq> {next_addr h ..< next_addr h'}"
proof (cases "LogicalID spec")
  case None
  from assms show ?thesis unfolding cloneSpec_None [OF None] by (auto simp: owned_def)
next
  case (Some p)
  from assms show ?thesis unfolding cloneSpec_Some [OF Some] by (auto simp: owned_def)
qed

lemma cloneSpec_fields:
  assumes "cloneSpec spec h = (c, h')"
  shows "Properties c = Properties spec \<and> Init c = Init spec \<and>
         Tags c = Some (next_addr h) \<and> (\<exists>a. Attachments c = Some a)"
proof (cases "LogicalID spec")
  case None
  from assms show ?thesis unfolding cloneSpec_None [OF None] by auto
next
  case (Some p)
  from assms show ?thesis unfolding cloneSpec_Some [OF Some] by auto
qed

lemma cloneSpec_contents:
  assumes "cloneSpec spec h = (c, h')" and "allocated h spec"
  shows "contents h' c = contents h spec"
proof (cases "LogicalID spec")
  case None
  from assms None show ?thesis unfolding cloneSpec_None [OF None]
    by (auto simp: contents_def allocated_def owned_def range_Tags_def range_Attachments_def
        split: option.splits)
next
  case (Some p)
  from assms Some show ?thesis unfolding cloneSpec_Some [OF Some]
    by (auto simp: contents_def allocated_def owned_def range_Tags_def range_Attachments_def
        split: option.splits)
qed


lemma Attachments_update_same:
  "Attachments r = s \<Longrightarrow> r\<lparr>Attachments := s\<rparr> = r"
  by (cases r) simp

lemma range_Tags_other:
  "m \<noteq> Some t \<Longrightarrow> range_Tags (h\<lparr>tag_cells := (tag_cells h)(t := x), att_cells := y\<rparr>) m = range_Tags h m"
  by (simp add: range_Tags_def split: option.splits)

lemma range_Attachments_other:
  "s \<noteq> Some a \<Longrightarrow>
   range_Attachments (h\<lparr>tag_cells := x, att_cells := (att_cells h)(a := y)\<rparr>) s = range_Attachments h s"
  by (simp add: range_Attachments_def split: option.splits)

lemma range_Attachments_tag_cells:
  "range_Attachments (h\<lparr>tag_cells := x\<rparr>) s = range_Attachments h s"
  by (cases s) (simp_all add: range_Attachments_def)

lemma merge_loop_closed:
  assumes "Tags result = Some t" and "Attachments result = Some a"
      and "\<forall>s \<in> set specs. Tags s \<noteq> Some t \<and> Attachments s \<noteq> Some a"
  shows "merge_loop result specs h =
           (Returns (result\<lparr>Init := join_init (Init result) (map Init specs)\<rparr>),
            h\<lparr>tag_cells := (tag_cells h)
                 (t := foldl (++) (tag_cells h t) (map (\<lambda>s. range_Tags h (Tags s)) specs)),
              att_cells := (att_cells h)
                 (a := att_cells h a @ concat (map (\<lambda>s. range_Attachments h (Attachments s)) specs))\<rparr>)"
  using assms
proof (induction specs arbitrary: result h)
  case Nil
  then show ?case by simp
next
  case (Cons spec specs)
  define result1 where "result1 =
     (if Init spec \<noteq> []
      then result\<lparr>Init := (if Init result \<noteq> [] then Init result @ newline else Init result) @ Init spec\<rparr>
      else result)"
  define h2 where "h2 = h\<lparr>tag_cells := (tag_cells h)(t := tag_cells h t ++ range_Tags h (Tags spec)),
      att_cells := (att_cells h)(a := att_cells h a @ range_Attachments h (Attachments spec))\<rparr>"
  have r1: "Tags result1 = Some t" "Attachments result1 = Some a"
    using Cons.prems(1,2) by (simp_all add: result1_def)
  have rest: "\<forall>s \<in> set specs. Tags s \<noteq> Some t \<and> Attachments s \<noteq> Some a"
    using Cons.prems(3) by simp
  have step: "merge_loop result (spec # specs) h = merge_loop result1 specs h2"
    using Cons.prems(1,2) r1
    by (simp add: assign_entries_def store_entries_def append_each_Some result1_def h2_def
        range_Attachments_tag_cells Attachments_update_same)
  have tags: "map (\<lambda>s. range_Tags h2 (Tags s)) specs = map (\<lambda>s. range_Tags h (Tags s)) specs"
    using rest by (simp add: h2_def range_Tags_other)
  have atts: "map (\<lambda>s. range_Attachments h2 (Attachments s)) specs
                = map (\<lambda>s. range_Attachments h (Attachments s)) specs"
    using rest by (simp add: h2_def range_Attachments_other)
  have init: "result1\<lparr>Init := join_init (Init result1) (map Init specs)\<rparr>
                = result\<lparr>Init := join_init (Init result) (map Init (spec # specs))\<rparr>"
    by (simp add: result1_def)
  have heap: "h2\<lparr>tag_cells := (tag_cells h2)
                 (t := foldl (++) (tag_cells h2 t) (map (\<lambda>s. range_Tags h (Tags s)) specs)),
              att_cells := (att_cells h2)
                 (a := att_cells h2 a @ concat (map (\<lambda>s. range_Attachments h (Attachments s)) specs))\<rparr>
            = h\<lparr>tag_cells := (tag_cells h)
                 (t := foldl (++) (tag_cells h t) (map (\<lambda>s. range_Tags h (Tags s)) (spec # specs))),
              att_cells := (att_cells h)
                 (a := att_cells h a @ concat (map (\<lambda>s. range_Attachments h (Attachments s)) (spec # specs)))\<rparr>"
    by (simp add: h2_def)
  show ?case
    by (simp only: step Cons.IH [OF r1 rest] tags atts init heap)
qed

lemma foldl_overlay_last:
  "foldl (++) m0 ms k =
     (case find (\<lambda>m. m k \<noteq> None) (rev ms) of None \<Rightarrow> m0 k | Some m \<Rightarrow> m k)"
proof (induction ms rule: rev_induct)
  case Nil
  then show ?case by simp
next
  case (snoc m ms)
  then show ?case by (cases "m k") (simp_all add: map_add_def)
qed

lemma join_init_Join:
  "join_init acc xs = strings_Join (filter (\<lambda>x. x \<noteq> []) (acc # xs)) newline"
proof (induction xs arbitrary: acc)
  case Nil
  then show ?case by simp
next
  case (Cons x xs)
  show ?case
  proof (cases "x = []")
    case True
    then show ?thesis using Cons.IH [of acc] by simp
  next
    case False
    note x = this
    show ?thesis
    proof (cases "acc = []")
      case True
      with x show ?thesis using Cons.IH [of x] by simp
    next
      case False
      have "strings_Join (acc # filter (\<lambda>x. x \<noteq> []) (x # xs)) newline
              = strings_Join ((acc @ newline @ x) # filter (\<lambda>x. x \<noteq> []) xs) newline"
        using x by (cases "filter (\<lambda>x. x \<noteq> []) xs") simp_all
      with x False show ?thesis using Cons.IH [of "acc @ newline @ x"] by simp
    qed
  qed
qed

lemma range_Tags_Some: "range_Tags h (Some t) = tag_cells h t"
  by (simp add: range_Tags_def)

lemma range_Attachments_Some: "range_Attachments h (Some a) = att_cells h a"
  by (simp add: range_Attachments_def)

lemma mergeSpecs_contents:
  assumes "allocated h initial" and "\<forall>s \<in> set specs. allocated h s"
  shows "\<exists>result h'.
           mergeSpecs initial specs h = (Returns (result, None), h') \<and>
           contents h' result =
             \<lparr>properties = Properties initial,
              tags = foldl (++) (range_Tags h (Tags initial)) (map (\<lambda>s. range_Tags h (Tags s)) specs),
              init = join_init (Init initial) (map Init specs),
              logicalID = map_option (id_cells h) (LogicalID initial),
              attachments = range_Attachments h (Attachments initial)
                 @ concat (map (\<lambda>s. range_Attachments h (Attachments s)) specs)\<rparr> \<and>
           next_addr h \<le> next_addr h' \<and>
           (\<forall>a. a < next_addr h \<longrightarrow>
              tag_cells h' a = tag_cells h a \<and> id_cells h' a = id_cells h a \<and>
              att_cells h' a = att_cells h a)"
proof -
  obtain c h0 where clone: "cloneSpec initial h = (c, h0)"
    by (metis prod.exhaust)
  note frame = cloneSpec_frame [OF clone]
  note fresh = cloneSpec_fresh [OF clone]
  from cloneSpec_fields [OF clone] obtain a where
    fields: "Properties c = Properties initial" "Init c = Init initial"
      "Tags c = Some (next_addr h)" "Attachments c = Some a"
    by blast
  let ?t = "next_addr h"
  from fresh fields have a: "next_addr h \<le> a"
    by (auto simp: owned_def)
  have same: "contents h0 c = contents h initial"
    by (rule cloneSpec_contents [OF clone assms(1)])
  have apart: "\<forall>s \<in> set specs. Tags s \<noteq> Some ?t \<and> Attachments s \<noteq> Some a"
    using assms(2) a by (auto simp: allocated_def owned_def)
  have rt: "range_Tags h0 (Tags s) = range_Tags h (Tags s)" if "s \<in> set specs" for s
    using that assms(2) frame by (cases "Tags s") (auto simp: allocated_def owned_def range_Tags_def)
  have ra: "range_Attachments h0 (Attachments s) = range_Attachments h (Attachments s)"
    if "s \<in> set specs" for s
    using that assms(2) frame
    by (cases "Attachments s") (auto simp: allocated_def owned_def range_Attachments_def)
  have t0: "tag_cells h0 ?t = range_Tags h (Tags initial)"
    using same fields by (simp add: contents_def range_Tags_Some)
  have a0: "att_cells h0 a = range_Attachments h (Attachments initial)"
    using same fields by (simp add: contents_def range_Attachments_Some)
  have l0: "map_option (id_cells h0) (LogicalID c) = map_option (id_cells h) (LogicalID initial)"
    using same by (simp add: contents_def)
  define result where "result = c\<lparr>Init := join_init (Init c) (map Init specs)\<rparr>"
  define h' where "h' = h0\<lparr>tag_cells := (tag_cells h0)
                 (?t := foldl (++) (tag_cells h0 ?t) (map (\<lambda>s. range_Tags h0 (Tags s)) specs)),
              att_cells := (att_cells h0)
                 (a := att_cells h0 a @ concat (map (\<lambda>s. range_Attachments h0 (Attachments s)) specs))\<rparr>"
  have loop: "merge_loop c specs h0 = (Returns result, h')"
    unfolding result_def h'_def by (rule merge_loop_closed [OF fields(3,4) apart])
  have run: "mergeSpecs initial specs h = (Returns (result, None), h')"
    by (simp add: mergeSpecs_def clone loop)
  have mt: "map (\<lambda>s. range_Tags h0 (Tags s)) specs = map (\<lambda>s. range_Tags h (Tags s)) specs"
    using rt by simp
  have ma: "map (\<lambda>s. range_Attachments h0 (Attachments s)) specs
              = map (\<lambda>s. range_Attachments h (Attachments s)) specs"
    using ra by simp
  have cont: "contents h' result =
             \<lparr>properties = Properties initial,
              tags = foldl (++) (range_Tags h (Tags initial)) (map (\<lambda>s. range_Tags h (Tags s)) specs),
              init = join_init (Init initial) (map Init specs),
              logicalID = map_option (id_cells h) (LogicalID initial),
              attachments = range_Attachments h (Attachments initial)
                 @ concat (map (\<lambda>s. range_Attachments h (Attachments s)) specs)\<rparr>"
    using fields l0
    by (simp add: contents_def result_def h'_def range_Tags_Some range_Attachments_Some t0 a0 mt ma)
  have fr: "next_addr h \<le> next_addr h' \<and>
           (\<forall>b. b < next_addr h \<longrightarrow>
              tag_cells h' b = tag_cells h b \<and> id_cells h' b = id_cells h b \<and>
              att_cells h' b = att_cells h b)"
    using frame a by (auto simp: h'_def)
  from run cont fr show ?thesis by blast
qed

lemma find_rev_map:
  "find P (rev (map f xs)) = map_option f (find (\<lambda>x. P (f x)) (rev xs))"
proof -
  have "find P (map f ys) = map_option f (find (\<lambda>x. P (f x)) ys)" for ys
    by (induction ys) simp_all
  then show ?thesis by (simp add: rev_map)
qed

text \<open>
  C6. Merging member outputs whose objects exist in the heap returns a spec in which
  every key holds the value of the last member, in list order, whose tags define the
  key, and the value of the original spec when no member defines it.
\<close>

theorem merge_tags_last_member_wins:
  assumes "allocated h initial" and "\<forall>s \<in> set specs. allocated h s"
  shows "\<exists>result h'.
           mergeSpecs initial specs h = (Returns (result, None), h') \<and>
           (\<forall>k. tags (contents h' result) k =
              (case find (\<lambda>s. range_Tags h (Tags s) k \<noteq> None) (rev specs) of
                 None \<Rightarrow> range_Tags h (Tags initial) k
               | Some s \<Rightarrow> range_Tags h (Tags s) k))"
proof -
  from mergeSpecs_contents [OF assms] obtain result h' where
    run: "mergeSpecs initial specs h = (Returns (result, None), h')" and
    t: "tags (contents h' result) =
          foldl (++) (range_Tags h (Tags initial)) (map (\<lambda>s. range_Tags h (Tags s)) specs)"
    by fastforce
  have "tags (contents h' result) k =
          (case find (\<lambda>s. range_Tags h (Tags s) k \<noteq> None) (rev specs) of
             None \<Rightarrow> range_Tags h (Tags initial) k
           | Some s \<Rightarrow> range_Tags h (Tags s) k)" for k
    unfolding t foldl_overlay_last find_rev_map
    by (cases "find (\<lambda>s. range_Tags h (Tags s) k \<noteq> None) (rev specs)") simp_all
  with run show ?thesis by blast
qed

lemma sample_allocated:
  "allocated sample_heap sample_spec"
  "\<forall>s \<in> set [sample_output_A, sample_output_B, sample_output_C]. allocated sample_heap s"
  by (simp_all add: allocated_def owned_def sample_heap_def sample_spec_def sample_output_A_def
      sample_output_B_def sample_output_C_def)

theorem merge_tags_last_member_wins_witness:
  "\<exists>result h'.
     mergeSpecs sample_spec [sample_output_A, sample_output_B, sample_output_C] sample_heap
       = (Returns (result, None), h') \<and>
     tags (contents h' result) ''k'' = Some ''2'' \<and>
     tags (contents h' result) ''j'' = Some ''3'' \<and>
     tags (contents h' result) ''i'' = None"
proof -
  from merge_tags_last_member_wins [OF sample_allocated] obtain result h' where
    run: "mergeSpecs sample_spec [sample_output_A, sample_output_B, sample_output_C] sample_heap
       = (Returns (result, None), h')" and
    t: "\<And>k. tags (contents h' result) k =
              (case find (\<lambda>s. range_Tags sample_heap (Tags s) k \<noteq> None)
                      (rev [sample_output_A, sample_output_B, sample_output_C]) of
                 None \<Rightarrow> range_Tags sample_heap (Tags sample_spec) k
               | Some s \<Rightarrow> range_Tags sample_heap (Tags s) k)"
    by blast
  have "tags (contents h' result) ''k'' = Some ''2''"
       "tags (contents h' result) ''j'' = Some ''3''"
       "tags (contents h' result) ''i'' = None"
    unfolding t
    by (simp_all add: range_Tags_def sample_heap_def sample_spec_def sample_output_A_def
        sample_output_B_def sample_output_C_def)
  with run show ?thesis by blast
qed

lemma merge_loop_Init:
  assumes "Tags result = Some t"
  shows "\<exists>r h'. merge_loop result specs h = (Returns r, h') \<and>
                 Init r = join_init (Init result) (map Init specs)"
  using assms
proof (induction specs arbitrary: result h)
  case Nil
  then show ?case by simp
next
  case (Cons spec specs)
  define result1 where "result1 =
     (if Init spec \<noteq> []
      then result\<lparr>Init := (if Init result \<noteq> [] then Init result @ newline else Init result) @ Init spec\<rparr>
      else result)"
  define h1 where "h1 = store_entries t (range_Tags h (Tags spec)) h"
  obtain s h2 where app: "append_each (Attachments result1)
       (range_Attachments h1 (Attachments spec)) h1 = (s, h2)"
    by (metis prod.exhaust)
  have step: "merge_loop result (spec # specs) h = merge_loop (result1\<lparr>Attachments := s\<rparr>) specs h2"
    using Cons.prems app by (simp add: assign_entries_def result1_def [symmetric] h1_def [symmetric])
  have "Tags (result1\<lparr>Attachments := s\<rparr>) = Some t"
    using Cons.prems by (simp add: result1_def)
  from Cons.IH [OF this, of h2] step show ?case
    by (auto simp: result1_def)
qed

lemma mergeSpecs_returns:
  "\<exists>result h'.
     mergeSpecs initial specs h = (Returns (result, None), h') \<and>
     Init result = join_init (Init initial) (map Init specs)"
proof -
  obtain c h0 where clone: "cloneSpec initial h = (c, h0)"
    by (metis prod.exhaust)
  from cloneSpec_fields [OF clone] have c: "Tags c = Some (next_addr h)" "Init c = Init initial"
    by simp_all
  from merge_loop_Init [OF c(1), of specs h0] obtain r h' where
    "merge_loop c specs h0 = (Returns r, h')" "Init r = join_init (Init c) (map Init specs)"
    by blast
  with clone c(2) show ?thesis
    by (simp add: mergeSpecs_def)
qed

text \<open>
  C7. Merging always returns, and the init of the result is the init of the original
  spec with the members' inits appended in list order by the rule of \<open>join_init\<close>: an
  empty init is skipped, any other is appended after a newline when something precedes
  it. That is the original init and the members' inits, the empty ones left out,
  joined by newlines.
\<close>

theorem merge_init_joined_by_newlines:
  "\<exists>result h'.
     mergeSpecs initial specs h = (Returns (result, None), h') \<and>
     Init result = join_init (Init initial) (map Init specs) \<and>
     Init result = strings_Join (filter (\<lambda>x. x \<noteq> []) (Init initial # map Init specs)) newline"
  using mergeSpecs_returns [of initial specs h] by (auto simp: join_init_Join)

theorem merge_init_joined_by_newlines_witness:
  "\<exists>result h'.
     mergeSpecs (sample_spec\<lparr>Init := []\<rparr>) [sample_output_A, sample_output_B, sample_output_C]
         sample_heap = (Returns (result, None), h') \<and>
     Init result = ''echo a'' @ newline @ ''echo c''"
  using merge_init_joined_by_newlines [of "sample_spec\<lparr>Init := []\<rparr>"
      "[sample_output_A, sample_output_B, sample_output_C]" sample_heap]
  by (simp add: sample_output_A_def sample_output_B_def sample_output_C_def)

text \<open>
  C9. When the properties decode to no members and the objects of the input spec
  exist, Prepare calls no plugin, returns without an error, and the spec it returns
  has the contents of the input: the same properties, tags, init, logical ID and
  attachments.
\<close>

theorem Prepare_no_members_is_identity:
  assumes "unmarshal flavor = Inr combo" and "Flavors combo = []" and "allocated h inst"
  shows "\<exists>result h'.
           flavorCombo_Prepare unmarshal f flavor inst allocation h = (Returns (result, None), h', []) \<and>
           contents h' result = contents h inst"
proof -
  from mergeSpecs_contents [OF assms(3), of "[]"] obtain result h' where
    run: "mergeSpecs inst [] h = (Returns (result, None), h')" and
    c: "contents h' result =
          \<lparr>properties = Properties inst, tags = range_Tags h (Tags inst), init = Init inst,
           logicalID = map_option (id_cells h) (LogicalID inst),
           attachments = range_Attachments h (Attachments inst)\<rparr>"
    by fastforce
  from run assms(1,2) have "flavorCombo_Prepare unmarshal f flavor inst allocation h
      = (Returns (result, None), h', [])"
    by (simp add: flavorCombo_Prepare_def)
  with c show ?thesis by (auto simp: contents_def)
qed

theorem Prepare_no_members_is_identity_witness:
  "\<exists>result h'.
     flavorCombo_Prepare sample_unmarshal sample_lookup [] sample_spec () sample_heap
       = (Returns (result, None), h', []) \<and>
     contents h' result =
       \<lparr>properties = None, tags = [''k'' \<mapsto> ''0''], init = ''boot'',
        logicalID = Some ''10.0.0.1'', attachments = [7]\<rparr>"
proof -
  have dec: "sample_unmarshal [] = Inr \<lparr>Flavors = []\<rparr>"
    by (simp add: sample_unmarshal_def)
  have none: "Flavors \<lparr>Flavors = []\<rparr> = []"
    by simp
  have "contents sample_heap sample_spec =
       \<lparr>properties = None, tags = [''k'' \<mapsto> ''0''], init = ''boot'',
        logicalID = Some ''10.0.0.1'', attachments = [7]\<rparr>"
    by (simp add: contents_def sample_heap_def sample_spec_def range_Tags_def range_Attachments_def)
  with Prepare_no_members_is_identity [where unmarshal = sample_unmarshal and flavor = "[]"
      and combo = "\<lparr>Flavors = []\<rparr>" and h = sample_heap and inst = sample_spec
      and f = sample_lookup and allocation = "()", OF dec none sample_allocated(1)]
  show ?thesis by simp
qed

section \<open>Prepare\<close>

lemma unchanged_below_refl: "unchanged_below b h h"
  by (simp add: unchanged_below_def)

lemma unchanged_below_trans:
  "unchanged_below b h h1 \<Longrightarrow> unchanged_below b1 h1 h2 \<Longrightarrow> b \<le> b1 \<Longrightarrow> unchanged_below b h h2"
  by (simp add: unchanged_below_def)

lemma contents_unchanged:
  assumes "allocated h inst" and "unchanged_below (next_addr h) h h'"
  shows "contents h' inst = contents h inst"
  using assms
  by (cases "Tags inst"; cases "LogicalID inst"; cases "Attachments inst")
    (simp_all add: contents_def allocated_def owned_def unchanged_below_def range_Tags_def
      range_Attachments_def)

lemma allocated_mono:
  "allocated h inst \<Longrightarrow> next_addr h \<le> next_addr h' \<Longrightarrow> allocated h' inst"
  by (auto simp: allocated_def)

lemma confined_unchanged_below:
  assumes "confined c h1 h2" and "owned c \<subseteq> {b ..< next_addr h1}" and "b \<le> next_addr h1"
  shows "unchanged_below b h1 h2"
  unfolding unchanged_below_def
proof (intro allI impI)
  fix a
  assume "a < b"
  with assms(2,3) have "a < next_addr h1 \<and> a \<notin> owned c"
    by auto
  with assms(1) show "tag_cells h2 a = tag_cells h1 a \<and> id_cells h2 a = id_cells h1 a \<and>
        att_cells h2 a = att_cells h1 a"
    unfolding confined_def by blast
qed

lemma Prepare_loop_isolated:
  assumes "confined_plugins f" and "allocated h inst"
      and "Prepare_loop f inst allocation ms specs h = (r, h', calls)"
  shows "next_addr h \<le> next_addr h' \<and> unchanged_below (next_addr h) h h' \<and>
         (\<forall>c \<in> set calls. handed c = contents h inst \<and>
                           owned (clone c) \<subseteq> {next_addr h ..< next_addr h'}) \<and>
         sorted_wrt (\<lambda>c d. owned (clone c) \<inter> owned (clone d) = {}) calls"
  using assms(2,3)
proof (induction ms arbitrary: specs h r h' calls)
  case Nil
  then show ?case by (simp add: unchanged_below_refl)
next
  case (Cons m ms)
  obtain c h1 where cl: "cloneSpec inst h = (c, h1)"
    by (metis prod.exhaust)
  from cloneSpec_frame [OF cl] have lt1: "next_addr h < next_addr h1"
    and un1: "unchanged_below (next_addr h) h h1"
    by (simp_all add: unchanged_below_def)
  note fresh1 = cloneSpec_fresh [OF cl]
  have cont1: "contents h1 c = contents h inst"
    by (rule cloneSpec_contents [OF cl Cons.prems(1)])
  obtain po eo where look: "f (Plugin m) = (po, eo)"
    by (metis prod.exhaust)
  show ?case
  proof (cases "eo = None \<and> po \<noteq> None")
    case False
    with Cons.prems(2) cl look have "h' = h1" "calls = []"
      by (cases eo; cases po; simp)+
    with lt1 un1 show ?thesis by simp
  next
    case True
    then obtain p where p: "po = Some p" "eo = None"
      by auto
    obtain out err h2 where call:
      "Plugin_Prepare p (Plugin_Properties m) c allocation h1 = ((out, err), h2)"
      by (metis prod.exhaust)
    from assms(1) look p have "confined c h1 (snd (Plugin_Prepare p (Plugin_Properties m) c allocation h1))"
      unfolding confined_plugins_def by (metis fst_conv)
    with call have conf: "confined c h1 h2"
      by simp
    then have le2: "next_addr h1 \<le> next_addr h2"
      by (simp add: confined_def)
    from confined_unchanged_below [OF conf fresh1] lt1
    have "unchanged_below (next_addr h) h1 h2"
      by simp
    with un1 have un2: "unchanged_below (next_addr h) h h2"
      by (rule unchanged_below_trans) simp
    define entry where "entry = \<lparr>member = m, clone = c, handed = contents h1 c, returned = err\<rparr>"
    have entry: "handed entry = contents h inst" "clone entry = c"
      by (simp_all add: entry_def cont1)
    show ?thesis
    proof (cases err)
      case (Some e)
      with Cons.prems(2) cl look p call have "h' = h2" "calls = [entry]"
        by (simp_all add: entry_def)
      with lt1 le2 un2 entry fresh1 show ?thesis
        by auto
    next
      case None
      obtain r3 h3 calls3 where rest:
        "Prepare_loop f inst allocation ms (specs @ [out]) h2 = (r3, h3, calls3)"
        by (metis prod.exhaust)
      with Cons.prems(2) cl look p call None have eq: "h' = h3" "calls = entry # calls3"
        by (simp_all add: entry_def)
      have al2: "allocated h2 inst"
        using Cons.prems(1) lt1 le2 by (auto intro: allocated_mono)
      from Cons.IH [OF al2 rest]
      have le3: "next_addr h2 \<le> next_addr h3"
        and un3: "unchanged_below (next_addr h2) h2 h3"
        and c3: "\<forall>c \<in> set calls3. handed c = contents h2 inst \<and>
                   owned (clone c) \<subseteq> {next_addr h2 ..< next_addr h3}"
        and s3: "sorted_wrt (\<lambda>c d. owned (clone c) \<inter> owned (clone d) = {}) calls3"
        by simp_all
      have same2: "contents h2 inst = contents h inst"
        by (rule contents_unchanged [OF Cons.prems(1) un2])
      have un: "unchanged_below (next_addr h) h h3"
        using lt1 le2 by (intro unchanged_below_trans [OF un2 un3]) simp
      have apart: "\<forall>d \<in> set calls3. owned (clone entry) \<inter> owned (clone d) = {}"
        using c3 fresh1 le2 entry(2) by fastforce
      have within: "\<forall>c \<in> set calls3. owned (clone c) \<subseteq> {next_addr h ..< next_addr h3}"
        using c3 lt1 le2 by fastforce
      from lt1 le2 le3 un c3 same2 entry fresh1 apart within s3 show ?thesis
        unfolding eq by auto
    qed
  qed
qed

lemma merge_loop_frame:
  assumes "Tags result = Some t" and "Attachments result = Some a" and "b \<le> t" and "b \<le> a"
      and "merge_loop result specs h = (r, h')"
  shows "unchanged_below b h h' \<and> next_addr h' = next_addr h"
  using assms
proof (induction specs arbitrary: result h)
  case Nil
  then show ?case by (simp add: unchanged_below_refl)
next
  case (Cons spec specs)
  define result1 where "result1 =
     (if Init spec \<noteq> []
      then result\<lparr>Init := (if Init result \<noteq> [] then Init result @ newline else Init result) @ Init spec\<rparr>
      else result)"
  define h1 where "h1 = store_entries t (range_Tags h (Tags spec)) h"
  define h2 where "h2 = h1\<lparr>att_cells := (att_cells h1)(a := att_cells h1 a @ range_Attachments h1 (Attachments spec))\<rparr>"
  have r1: "Tags result1 = Some t" "Attachments result1 = Some a"
    using Cons.prems(1,2) by (simp_all add: result1_def)
  have step: "merge_loop result (spec # specs) h = merge_loop result1 specs h2"
    using Cons.prems(1) r1
    by (simp add: assign_entries_def result1_def [symmetric] h1_def [symmetric] append_each_Some
        h2_def Attachments_update_same)
  have first: "unchanged_below b h h2" "next_addr h2 = next_addr h"
    using Cons.prems(3,4) by (simp_all add: unchanged_below_def h2_def h1_def store_entries_def)
  from Cons.prems(5) step have "merge_loop result1 specs h2 = (r, h')"
    by simp
  from Cons.IH [OF r1 Cons.prems(3,4) this] first show ?case
    by (auto intro: unchanged_below_trans)
qed

lemma mergeSpecs_frame:
  assumes "mergeSpecs initial specs h = (r, h')"
  shows "next_addr h \<le> next_addr h' \<and> unchanged_below (next_addr h) h h'"
proof -
  obtain c h0 where clone: "cloneSpec initial h = (c, h0)"
    by (metis prod.exhaust)
  from cloneSpec_frame [OF clone] have lt: "next_addr h < next_addr h0"
    and un0: "unchanged_below (next_addr h) h h0"
    by (simp_all add: unchanged_below_def)
  from cloneSpec_fields [OF clone] obtain a where
    fields: "Tags c = Some (next_addr h)" "Attachments c = Some a"
    by blast
  from cloneSpec_fresh [OF clone] fields have a: "next_addr h \<le> a"
    by (auto simp: owned_def)
  obtain r0 h1 where loop: "merge_loop c specs h0 = (r0, h1)"
    by (metis prod.exhaust)
  from merge_loop_frame [OF fields order_refl a loop]
  have un1: "unchanged_below (next_addr h) h0 h1" and n1: "next_addr h1 = next_addr h0"
    by simp_all
  from assms clone loop have "h' = h1"
    by (cases r0) (simp_all add: mergeSpecs_def)
  with lt un0 un1 n1 show ?thesis
    by (auto intro: unchanged_below_trans)
qed

lemma Prepare_calls_of_loop:
  assumes "unmarshal flavor = Inr combo"
      and "flavorCombo_Prepare unmarshal f flavor inst allocation h = (r, h', calls)"
      and "Prepare_loop f inst allocation (Flavors combo) [] h = (r1, h1, calls1)"
  shows "calls = calls1"
  using assms
  by (auto simp: flavorCombo_Prepare_def split: outcome.splits sum.splits prod.splits)

lemma Prepare_unchanged_below:
  assumes "confined_plugins f" and "allocated h inst"
      and "flavorCombo_Prepare unmarshal f flavor inst allocation h = (r, h', calls)"
  shows "unchanged_below (next_addr h) h h'"
proof (cases "unmarshal flavor")
  case (Inl d)
  with assms(3) show ?thesis by (simp add: flavorCombo_Prepare_def unchanged_below_refl)
next
  case (Inr combo)
  obtain r1 h1 calls1 where loop:
    "Prepare_loop f inst allocation (Flavors combo) [] h = (r1, h1, calls1)"
    by (metis prod.exhaust)
  from Prepare_loop_isolated [OF assms(1,2) loop]
  have le1: "next_addr h \<le> next_addr h1"
    and un1: "unchanged_below (next_addr h) h h1"
    by simp_all
  show ?thesis
  proof (cases "\<exists>specs. r1 = Returns (Inr specs)")
    case True
    then obtain specs where r1: "r1 = Returns (Inr specs)" by blast
    obtain r2 h2 where m: "mergeSpecs inst specs h1 = (r2, h2)"
      by (metis prod.exhaust)
    with assms(3) Inr loop r1 have "h' = h2"
      by (simp add: flavorCombo_Prepare_def)
    with mergeSpecs_frame [OF m] un1 le1 show ?thesis
      by (auto intro: unchanged_below_trans)
  next
    case False
    with assms(3) Inr loop have "h' = h1"
      by (auto simp: flavorCombo_Prepare_def split: outcome.splits sum.splits)
    with un1 show ?thesis by simp
  qed
qed

text \<open>
  C3. Let the members' Prepare calls be confined and the objects of the input spec
  exist. Then every clone handed to a member has, at the moment of the call, the
  contents of the input spec as it was when Prepare was called, whatever the members
  called before did to their clones; a clone shares no object with the input spec, and
  the clones of two calls share no object; and after Prepare the input spec has the
  contents it had before.
\<close>

theorem Prepare_hands_each_member_a_fresh_clone:
  assumes "confined_plugins f" and "allocated h inst"
      and "flavorCombo_Prepare unmarshal f flavor inst allocation h = (r, h', calls)"
  shows "(\<forall>c \<in> set calls. handed c = contents h inst \<and> owned (clone c) \<inter> owned inst = {}) \<and>
         (\<forall>i j. i < j \<and> j < length calls \<longrightarrow>
            owned (clone (calls ! i)) \<inter> owned (clone (calls ! j)) = {}) \<and>
         contents h' inst = contents h inst"
proof -
  have same: "contents h' inst = contents h inst"
    by (rule contents_unchanged [OF assms(2) Prepare_unchanged_below [OF assms]])
  show ?thesis
  proof (cases "unmarshal flavor")
    case (Inl d)
    with assms(3) same show ?thesis by (simp add: flavorCombo_Prepare_def)
  next
    case (Inr combo)
    obtain r1 h1 calls1 where loop:
      "Prepare_loop f inst allocation (Flavors combo) [] h = (r1, h1, calls1)"
      by (metis prod.exhaust)
    from Prepare_loop_isolated [OF assms(1,2) loop]
    have c1: "\<forall>c \<in> set calls1. handed c = contents h inst \<and>
                 owned (clone c) \<subseteq> {next_addr h ..< next_addr h1}"
      and s1: "sorted_wrt (\<lambda>c d. owned (clone c) \<inter> owned (clone d) = {}) calls1"
      by simp_all
    note calls = Prepare_calls_of_loop [OF Inr assms(3) loop]
    have apart: "\<forall>c \<in> set calls. owned (clone c) \<inter> owned inst = {}"
      using c1 assms(2) unfolding calls allocated_def by fastforce
    have pairs: "\<forall>i j. i < j \<and> j < length calls \<longrightarrow>
              owned (clone (calls ! i)) \<inter> owned (clone (calls ! j)) = {}"
      using s1 unfolding calls by (simp add: sorted_wrt_iff_nth_less)
    from c1 apart pairs same show ?thesis
      unfolding calls by blast
  qed
qed

lemma sample_confined: "confined_plugins sample_lookup"
  unfolding confined_plugins_def
proof (intro allI impI)
  fix name p properties c allocation and h :: "(nat, unit) heap"
  assume "fst (sample_lookup name) = Some p"
  then obtain health err k v where p: "p = sample_plugin health err k v"
    by (auto simp: sample_lookup_def split: if_splits)
  show "confined c h (snd (Plugin_Prepare p properties c allocation h))"
    unfolding p
    by (cases "Tags c") (auto simp: sample_plugin_def confined_def owned_def)
qed

lemma sample_LogicalID: "LogicalID sample_spec = Some 1"
  by (simp add: sample_spec_def)

lemmas sample_eval = sample_Prepare_def flavorCombo_Prepare_def sample_unmarshal_def
  sample_lookup_def sample_plugin_def cloneSpec_Some [OF sample_LogicalID] Let_def

lemma sample_aa:
  "map member (snd (snd (sample_Prepare ''aa'')))
     = [\<lparr>Plugin = ''a'', Plugin_Properties = []\<rparr>, \<lparr>Plugin = ''a'', Plugin_Properties = []\<rparr>]"
  "tags (contents (fst (snd (sample_Prepare ''aa''))) (clone (snd (snd (sample_Prepare ''aa'')) ! 0))) ''k''
     = Some ''1''"
  by (simp_all add: sample_eval mergeSpecs_def contents_def range_Tags_def merge_loop_closed
     assign_entries_def store_entries_def append_each_Some)

theorem Prepare_hands_each_member_a_fresh_clone_witness:
  "map member (snd (snd (sample_Prepare ''aa'')))
     = [\<lparr>Plugin = ''a'', Plugin_Properties = []\<rparr>, \<lparr>Plugin = ''a'', Plugin_Properties = []\<rparr>] \<and>
   tags (contents (fst (snd (sample_Prepare ''aa''))) (clone (snd (snd (sample_Prepare ''aa'')) ! 0))) ''k''
     = Some ''1'' \<and>
   tags (handed (snd (snd (sample_Prepare ''aa'')) ! 1)) ''k'' = Some ''0'' \<and>
   handed (snd (snd (sample_Prepare ''aa'')) ! 1) = contents sample_heap sample_spec \<and>
   owned (clone (snd (snd (sample_Prepare ''aa'')) ! 0))
     \<inter> owned (clone (snd (snd (sample_Prepare ''aa'')) ! 1)) = {} \<and>
   contents (fst (snd (sample_Prepare ''aa''))) sample_spec = contents sample_heap sample_spec"
proof -
  let ?calls = "snd (snd (sample_Prepare ''aa''))"
  have run: "flavorCombo_Prepare sample_unmarshal sample_lookup ''aa'' sample_spec () sample_heap
     = (fst (sample_Prepare ''aa''), fst (snd (sample_Prepare ''aa'')), ?calls)"
    by (simp add: sample_Prepare_def)
  note facts = Prepare_hands_each_member_a_fresh_clone [OF sample_confined sample_allocated(1) run]
  have "length (map member ?calls) = 2"
    unfolding sample_aa(1) by simp
  then have len: "length ?calls = 2"
    by simp
  then have mem: "?calls ! 1 \<in> set ?calls"
    by simp
  from facts mem have h1: "handed (?calls ! 1) = contents sample_heap sample_spec"
    by blast
  have k: "tags (contents sample_heap sample_spec) ''k'' = Some ''0''"
    by (simp add: contents_def range_Tags_def sample_heap_def sample_spec_def)
  from facts len have "owned (clone (?calls ! 0)) \<inter> owned (clone (?calls ! 1)) = {}"
    by simp
  with facts h1 k sample_aa show ?thesis
    by simp
qed

lemma Prepare_loop_stops_at_failure:
  assumes "Prepare_loop f inst allocation ms specs h = (r, h', calls)"
  shows "map member calls = take (length calls) ms \<and>
         (\<forall>c \<in> set (butlast calls). returned c = None) \<and>
         (\<forall>e. calls \<noteq> [] \<and> returned (last calls) = Some e \<longrightarrow> r = Returns (Inl e)) \<and>
         (\<forall>e. (\<forall>c \<in> set calls. returned c = None) \<and> length calls < length ms \<and>
              snd (f (Plugin (ms ! length calls))) = Some e \<longrightarrow> r = Returns (Inl e))"
  using assms
proof (induction ms arbitrary: specs h r h' calls)
  case Nil
  then show ?case by simp
next
  case (Cons m ms)
  obtain c h1 where cl: "cloneSpec inst h = (c, h1)"
    by (metis prod.exhaust)
  obtain po eo where look: "f (Plugin m) = (po, eo)"
    by (metis prod.exhaust)
  show ?case
  proof (cases eo)
    case (Some e)
    with Cons.prems cl look have "calls = []" "r = Returns (Inl e)"
      by (cases po; simp)+
    with look Some show ?thesis by simp
  next
    case None
    note eo = this
    show ?thesis
    proof (cases po)
      case None
      with Cons.prems cl look eo have "calls = []"
        by simp
      with look eo show ?thesis by simp
    next
      case (Some p)
      obtain out err h2 where call:
        "Plugin_Prepare p (Plugin_Properties m) c allocation h1 = ((out, err), h2)"
        by (metis prod.exhaust)
      define entry where "entry = \<lparr>member = m, clone = c, handed = contents h1 c, returned = err\<rparr>"
      show ?thesis
      proof (cases err)
        case (Some e)
        with Cons.prems cl look eo \<open>po = Some p\<close> call
        have "calls = [entry]" "r = Returns (Inl e)"
          by (simp_all add: entry_def)
        with Some show ?thesis by (simp add: entry_def)
      next
        case None
        obtain r3 h3 calls3 where rest:
          "Prepare_loop f inst allocation ms (specs @ [out]) h2 = (r3, h3, calls3)"
          by (metis prod.exhaust)
        with Cons.prems cl look eo \<open>po = Some p\<close> call None
        have eq: "calls = entry # calls3" "r = r3"
          by (simp_all add: entry_def)
        have e: "member entry = m" "returned entry = None"
          by (simp_all add: entry_def None)
        from Cons.IH [OF rest] e show ?thesis
          unfolding eq by (cases calls3) auto
      qed
    qed
  qed
qed

lemma Prepare_loop_called_resolved:
  assumes "Prepare_loop f inst allocation ms specs h = (r, h', calls)"
  shows "\<forall>c \<in> set calls. \<exists>p. f (Plugin (member c)) = (Some p, None)"
  using assms
proof (induction ms arbitrary: specs h r h' calls)
  case Nil
  then show ?case by simp
next
  case (Cons m ms)
  obtain c h1 where cl: "cloneSpec inst h = (c, h1)"
    by (metis prod.exhaust)
  obtain po eo where look: "f (Plugin m) = (po, eo)"
    by (metis prod.exhaust)
  show ?case
  proof (cases "eo = None \<and> po \<noteq> None")
    case False
    with Cons.prems cl look have "calls = []"
      by (cases eo; cases po; simp)
    then show ?thesis by simp
  next
    case True
    then obtain p where p: "po = Some p" "eo = None"
      by auto
    obtain out err h2 where call:
      "Plugin_Prepare p (Plugin_Properties m) c allocation h1 = ((out, err), h2)"
      by (metis prod.exhaust)
    define entry where "entry = \<lparr>member = m, clone = c, handed = contents h1 c, returned = err\<rparr>"
    have resolved: "\<exists>q. f (Plugin (member entry)) = (Some q, None)"
      using look p by (simp add: entry_def)
    show ?thesis
    proof (cases err)
      case (Some e)
      with Cons.prems cl look p call have "calls = [entry]"
        by (simp add: entry_def)
      with resolved show ?thesis by simp
    next
      case None
      obtain r3 h3 calls3 where rest:
        "Prepare_loop f inst allocation ms (specs @ [out]) h2 = (r3, h3, calls3)"
        by (metis prod.exhaust)
      with Cons.prems cl look p call None have eq: "calls = entry # calls3"
        by (simp add: entry_def)
      from Cons.IH [OF rest] resolved show ?thesis
        unfolding eq by simp
    qed
  qed
qed

lemma Prepare_loop_stops_only_at_failure:
  assumes "Prepare_loop f inst allocation ms specs h = (r, h', calls)"
      and "\<forall>c \<in> set calls. returned c = None" and "length calls < length ms"
  shows "\<nexists>p. f (Plugin (ms ! length calls)) = (Some p, None)"
  using assms
proof (induction ms arbitrary: specs h r h' calls)
  case Nil
  then show ?case by simp
next
  case (Cons m ms)
  obtain c h1 where cl: "cloneSpec inst h = (c, h1)"
    by (metis prod.exhaust)
  obtain po eo where look: "f (Plugin m) = (po, eo)"
    by (metis prod.exhaust)
  show ?case
  proof (cases "eo = None \<and> po \<noteq> None")
    case False
    with Cons.prems(1) cl look have "calls = []"
      by (cases eo; cases po; simp)
    with False look show ?thesis by auto
  next
    case True
    then obtain p where p: "po = Some p" "eo = None"
      by auto
    obtain out err h2 where call:
      "Plugin_Prepare p (Plugin_Properties m) c allocation h1 = ((out, err), h2)"
      by (metis prod.exhaust)
    define entry where "entry = \<lparr>member = m, clone = c, handed = contents h1 c, returned = err\<rparr>"
    show ?thesis
    proof (cases err)
      case (Some e)
      with Cons.prems(1) cl look p call have "calls = [entry]"
        by (simp add: entry_def)
      with Cons.prems(2) Some show ?thesis by (simp add: entry_def)
    next
      case None
      obtain r3 h3 calls3 where rest:
        "Prepare_loop f inst allocation ms (specs @ [out]) h2 = (r3, h3, calls3)"
        by (metis prod.exhaust)
      with Cons.prems(1) cl look p call None have eq: "calls = entry # calls3"
        by (simp add: entry_def)
      from Cons.prems(2,3) have "\<forall>c \<in> set calls3. returned c = None" "length calls3 < length ms"
        unfolding eq by simp_all
      from Cons.IH [OF rest this] show ?thesis
        unfolding eq by simp
    qed
  qed
qed

lemma unresolved_not_called:
  assumes "map member calls = take (length calls) ms"
      and "\<forall>c \<in> set calls. \<exists>p. f (Plugin (member c)) = (Some p, None)"
      and "i < length ms" and "\<nexists>p. f (Plugin (ms ! i)) = (Some p, None)"
  shows "length calls \<le> i"
proof (rule ccontr)
  assume "\<not> length calls \<le> i"
  then have i: "i < length calls" by simp
  then have "map member calls ! i = member (calls ! i)"
    by simp
  with assms(1) i have "member (calls ! i) = ms ! i"
    by simp
  moreover from i assms(2) have "\<exists>p. f (Plugin (member (calls ! i))) = (Some p, None)"
    by simp
  ultimately show False using assms(4) by simp
qed

text \<open>
  C8. Under the same conditions on the members and the input spec: when the properties
  fail to decode, Prepare returns the input spec and the decoder's error and calls no
  member. When they decode, the members called are the first ones of the list, in
  order. Every member called had resolved, to a plugin and no error; so a member that
  fails to resolve is not called, and neither is any member after it. Every call but
  the last returned no error; if the last call returned an error, Prepare returns the
  input spec and that error. If no call returned an error and members are left
  uncalled, the first of them failed to resolve, and if its lookup returned an error,
  Prepare returns the input spec and that error. Whenever Prepare returns an error,
  the spec it returns is the input spec, with the contents it had before the call.
\<close>

theorem Prepare_fails_fast:
  assumes "confined_plugins f" and "allocated h inst"
      and "flavorCombo_Prepare unmarshal f flavor inst allocation h = (r, h', calls)"
  shows "(\<forall>d. unmarshal flavor = Inl d \<longrightarrow> r = Returns (inst, Some d) \<and> calls = [] \<and> h' = h) \<and>
         (\<forall>combo. unmarshal flavor = Inr combo \<longrightarrow>
            map member calls = take (length calls) (Flavors combo) \<and>
            (\<forall>c \<in> set calls. \<exists>p. f (Plugin (member c)) = (Some p, None)) \<and>
            (\<forall>i. i < length (Flavors combo) \<and>
                 (\<nexists>p. f (Plugin (Flavors combo ! i)) = (Some p, None)) \<longrightarrow>
                 length calls \<le> i) \<and>
            (\<forall>c \<in> set (butlast calls). returned c = None) \<and>
            (\<forall>e. calls \<noteq> [] \<and> returned (last calls) = Some e \<longrightarrow> r = Returns (inst, Some e)) \<and>
            ((\<forall>c \<in> set calls. returned c = None) \<and> length calls < length (Flavors combo) \<longrightarrow>
                 (\<nexists>p. f (Plugin (Flavors combo ! length calls)) = (Some p, None))) \<and>
            (\<forall>e. (\<forall>c \<in> set calls. returned c = None) \<and> length calls < length (Flavors combo) \<and>
                 snd (f (Plugin (Flavors combo ! length calls))) = Some e \<longrightarrow>
                 r = Returns (inst, Some e))) \<and>
         (\<forall>out e. r = Returns (out, Some e) \<longrightarrow> out = inst \<and> contents h' inst = contents h inst)"
proof -
  have decode: "\<forall>d. unmarshal flavor = Inl d \<longrightarrow> r = Returns (inst, Some d) \<and> calls = [] \<and> h' = h"
    using assms(3) by (auto simp: flavorCombo_Prepare_def)
  have members: "map member calls = take (length calls) (Flavors combo) \<and>
            (\<forall>c \<in> set calls. \<exists>p. f (Plugin (member c)) = (Some p, None)) \<and>
            (\<forall>i. i < length (Flavors combo) \<and>
                 (\<nexists>p. f (Plugin (Flavors combo ! i)) = (Some p, None)) \<longrightarrow>
                 length calls \<le> i) \<and>
            (\<forall>c \<in> set (butlast calls). returned c = None) \<and>
            (\<forall>e. calls \<noteq> [] \<and> returned (last calls) = Some e \<longrightarrow> r = Returns (inst, Some e)) \<and>
            ((\<forall>c \<in> set calls. returned c = None) \<and> length calls < length (Flavors combo) \<longrightarrow>
                 (\<nexists>p. f (Plugin (Flavors combo ! length calls)) = (Some p, None))) \<and>
            (\<forall>e. (\<forall>c \<in> set calls. returned c = None) \<and> length calls < length (Flavors combo) \<and>
                 snd (f (Plugin (Flavors combo ! length calls))) = Some e \<longrightarrow>
                 r = Returns (inst, Some e))"
    if dec: "unmarshal flavor = Inr combo" for combo
  proof -
    obtain r1 h1 calls1 where loop:
      "Prepare_loop f inst allocation (Flavors combo) [] h = (r1, h1, calls1)"
      by (metis prod.exhaust)
    note calls = Prepare_calls_of_loop [OF dec assms(3) loop]
    have fail: "r = Returns (inst, Some e)" if "r1 = Returns (Inl e)" for e
      using assms(3) dec loop that by (simp add: flavorCombo_Prepare_def)
    note stops = Prepare_loop_stops_at_failure [OF loop]
    note resolved = Prepare_loop_called_resolved [OF loop]
    from stops have prefix: "map member calls1 = take (length calls1) (Flavors combo)"
      by blast
    have skipped: "length calls1 \<le> i"
      if "i < length (Flavors combo)"
        and "\<nexists>p. f (Plugin (Flavors combo ! i)) = (Some p, None)" for i
      using prefix resolved that by (rule unresolved_not_called)
    have early: "\<nexists>p. f (Plugin (Flavors combo ! length calls1)) = (Some p, None)"
      if "\<forall>c \<in> set calls1. returned c = None" and "length calls1 < length (Flavors combo)"
      using loop that by (rule Prepare_loop_stops_only_at_failure)
    from stops fail
    have c4: "\<forall>c \<in> set (butlast calls1). returned c = None"
      and c5: "\<forall>e. calls1 \<noteq> [] \<and> returned (last calls1) = Some e \<longrightarrow> r = Returns (inst, Some e)"
      and c7: "\<forall>e. (\<forall>c \<in> set calls1. returned c = None) \<and> length calls1 < length (Flavors combo) \<and>
                 snd (f (Plugin (Flavors combo ! length calls1))) = Some e \<longrightarrow>
                 r = Returns (inst, Some e)"
      by blast+
    from skipped have c3: "\<forall>i. i < length (Flavors combo) \<and>
                 (\<nexists>p. f (Plugin (Flavors combo ! i)) = (Some p, None)) \<longrightarrow>
                 length calls1 \<le> i"
      by blast
    from early have c6: "(\<forall>c \<in> set calls1. returned c = None) \<and> length calls1 < length (Flavors combo) \<longrightarrow>
                 (\<nexists>p. f (Plugin (Flavors combo ! length calls1)) = (Some p, None))"
      by blast
    show ?thesis
      unfolding calls by (intro conjI prefix resolved c3 c4 c5 c6 c7)
  qed
  have orig: "out = inst" if "r = Returns (out, Some e)" for out e
  proof (cases "unmarshal flavor")
    case (Inl d)
    with decode that show ?thesis by simp
  next
    case (Inr combo)
    obtain r1 h1 calls1 where loop:
      "Prepare_loop f inst allocation (Flavors combo) [] h = (r1, h1, calls1)"
      by (metis prod.exhaust)
    show ?thesis
    proof (cases "\<exists>specs. r1 = Returns (Inr specs)")
      case True
      then obtain specs where r1: "r1 = Returns (Inr specs)" by blast
      from mergeSpecs_returns [of inst specs h1] obtain result h2 where
        "mergeSpecs inst specs h1 = (Returns (result, None), h2)"
        by blast
      with assms(3) Inr loop r1 that show ?thesis
        by (simp add: flavorCombo_Prepare_def)
    next
      case False
      with assms(3) Inr loop that show ?thesis
        by (auto simp: flavorCombo_Prepare_def split: outcome.splits sum.splits)
    qed
  qed
  have same: "contents h' inst = contents h inst"
    by (rule contents_unchanged [OF assms(2) Prepare_unchanged_below [OF assms]])
  from members have decoded: "\<forall>combo. unmarshal flavor = Inr combo \<longrightarrow>
            map member calls = take (length calls) (Flavors combo) \<and>
            (\<forall>c \<in> set calls. \<exists>p. f (Plugin (member c)) = (Some p, None)) \<and>
            (\<forall>i. i < length (Flavors combo) \<and>
                 (\<nexists>p. f (Plugin (Flavors combo ! i)) = (Some p, None)) \<longrightarrow>
                 length calls \<le> i) \<and>
            (\<forall>c \<in> set (butlast calls). returned c = None) \<and>
            (\<forall>e. calls \<noteq> [] \<and> returned (last calls) = Some e \<longrightarrow> r = Returns (inst, Some e)) \<and>
            ((\<forall>c \<in> set calls. returned c = None) \<and> length calls < length (Flavors combo) \<longrightarrow>
                 (\<nexists>p. f (Plugin (Flavors combo ! length calls)) = (Some p, None))) \<and>
            (\<forall>e. (\<forall>c \<in> set calls. returned c = None) \<and> length calls < length (Flavors combo) \<and>
                 snd (f (Plugin (Flavors combo ! length calls))) = Some e \<longrightarrow>
                 r = Returns (inst, Some e))"
    by (intro allI impI)
  from orig same
  have returned_spec: "\<forall>out e. r = Returns (out, Some e) \<longrightarrow> out = inst \<and> contents h' inst = contents h inst"
    by blast
  show ?thesis
    by (intro conjI decode decoded returned_spec)
qed

lemma sample_failures:
  "sample_Prepare ''{''
     = (Returns (sample_spec, Some (errors_New ''unexpected end of JSON input'')), sample_heap, [])"
  "fst (sample_Prepare ''ab'') = Returns (sample_spec, Some (errors_New ''x''))"
  "map member (snd (snd (sample_Prepare ''ab'')))
     = [\<lparr>Plugin = ''a'', Plugin_Properties = []\<rparr>, \<lparr>Plugin = ''b'', Plugin_Properties = []\<rparr>]"
  "map returned (snd (snd (sample_Prepare ''ab''))) = [None, Some (errors_New ''x'')]"
  "fst (sample_Prepare ''azb'') = Returns (sample_spec, Some (errors_New ''plugin not found''))"
  "map member (snd (snd (sample_Prepare ''azb''))) = [\<lparr>Plugin = ''a'', Plugin_Properties = []\<rparr>]"
  by (simp_all add: sample_eval)

theorem Prepare_fails_fast_witness:
  "sample_Prepare ''{''
     = (Returns (sample_spec, Some (errors_New ''unexpected end of JSON input'')), sample_heap, []) \<and>
   fst (sample_Prepare ''ab'') = Returns (sample_spec, Some (errors_New ''x'')) \<and>
   map member (snd (snd (sample_Prepare ''ab'')))
     = [\<lparr>Plugin = ''a'', Plugin_Properties = []\<rparr>, \<lparr>Plugin = ''b'', Plugin_Properties = []\<rparr>] \<and>
   contents (fst (snd (sample_Prepare ''ab''))) sample_spec = contents sample_heap sample_spec \<and>
   fst (sample_Prepare ''azb'') = Returns (sample_spec, Some (errors_New ''plugin not found'')) \<and>
   map member (snd (snd (sample_Prepare ''azb''))) = [\<lparr>Plugin = ''a'', Plugin_Properties = []\<rparr>] \<and>
   length (snd (snd (sample_Prepare ''azb''))) \<le> 1 \<and>
   contents (fst (snd (sample_Prepare ''azb''))) sample_spec = contents sample_heap sample_spec"
proof -
  have run: "flavorCombo_Prepare sample_unmarshal sample_lookup ''ab'' sample_spec () sample_heap
     = (fst (sample_Prepare ''ab''), fst (snd (sample_Prepare ''ab'')), snd (snd (sample_Prepare ''ab'')))"
    by (simp add: sample_Prepare_def)
  from Prepare_fails_fast [OF sample_confined sample_allocated(1) run] sample_failures(2)
  have ab: "contents (fst (snd (sample_Prepare ''ab''))) sample_spec = contents sample_heap sample_spec"
    by blast
  have run2: "flavorCombo_Prepare sample_unmarshal sample_lookup ''azb'' sample_spec () sample_heap
     = (fst (sample_Prepare ''azb''), fst (snd (sample_Prepare ''azb'')), snd (snd (sample_Prepare ''azb'')))"
    by (simp add: sample_Prepare_def)
  let ?combo = "\<lparr>Flavors = [\<lparr>Plugin = ''a'', Plugin_Properties = []\<rparr>,
      \<lparr>Plugin = ''z'', Plugin_Properties = []\<rparr>, \<lparr>Plugin = ''b'', Plugin_Properties = []\<rparr>]\<rparr>"
  have dec: "sample_unmarshal ''azb'' = Inr ?combo"
    by (simp add: sample_unmarshal_def)
  have z: "(1::nat) < length (Flavors ?combo) \<and>
           (\<nexists>p. sample_lookup (Plugin (Flavors ?combo ! 1)) = (Some p, None))"
    by (simp add: sample_lookup_def)
  note azb = Prepare_fails_fast [OF sample_confined sample_allocated(1) run2]
  from azb dec z have skipped: "length (snd (snd (sample_Prepare ''azb''))) \<le> 1"
    by blast
  from azb sample_failures(5)
  have same: "contents (fst (snd (sample_Prepare ''azb''))) sample_spec = contents sample_heap sample_spec"
    by blast
  from ab skipped same sample_failures show ?thesis
    by simp
qed

end
